theory Spec2Isabelle
  imports Complex_Main "HOL-Library.Word"
begin


section \<open>JavaScript values\<close>

subsection \<open>Strings\<close>

text \<open>
  A JavaScript string is a sequence of 16-bit code units; \<open>length\<close>, \<open>slice\<close>,
  \<open>trim\<close> and the regular expressions of the program all work on code units.
  \<open>str\<close> writes an ASCII literal.
\<close>

type_synonym jsstring = "16 word list"

definition str :: "string \<Rightarrow> jsstring" where
  "str s = map of_char s"

text \<open>The decimal digits of a natural number.\<close>

fun digits :: "nat \<Rightarrow> jsstring" where
  "digits n = (if n < 10 then [of_nat (48 + n)] else digits (n div 10) @ [of_nat (48 + n mod 10)])"

declare digits.simps [simp del]

subsection \<open>Numbers\<close>

text \<open>
  A JavaScript number is an IEEE 754 double: a finite value (a rational; the sign of
  zero is not kept, \<open>-0\<close> prints as \<open>0\<close> everywhere in the program), \<open>NaN\<close>, or an
  infinity. \<open>fl\<close> rounds a rational to the nearest double, ties to even, as every
  arithmetic operation and every numeric literal of the language does: \<open>u\<close> is the
  distance between neighbouring doubles around \<open>x\<close> (\<open>2 ^ -1074\<close> among the subnormals),
  and a value that rounds to \<open>2 ^ 1024\<close> or beyond is an infinity.
\<close>

datatype number = Finite rat | NaN | PosInf | NegInf

text \<open>The number of binary digits of a positive integer.\<close>

function bitlen :: "int \<Rightarrow> nat" where
  "bitlen n = (if n \<le> 0 then 0 else Suc (bitlen (n div 2)))"
  by pat_completeness auto
termination
  by (relation "measure nat") auto

declare bitlen.simps [simp del]

definition pow2 :: "int \<Rightarrow> rat" where
  "pow2 e = (if 0 \<le> e then 2 ^ nat e else 1 / 2 ^ nat (- e))"

definition pow10 :: "int \<Rightarrow> rat" where
  "pow10 e = (if 0 \<le> e then 10 ^ nat e else 1 / 10 ^ nat (- e))"

definition ilog2 :: "rat \<Rightarrow> int" where
  \<comment> \<open>\<open>\<lfloor>log\<^sub>2 a\<rfloor>\<close> for \<open>0 < a\<close>\<close>
  "ilog2 a = (let (p, q) = quotient_of a;
                  e = int (bitlen p) - int (bitlen q)
              in if pow2 e \<le> a then e else e - 1)"

definition ilog10 :: "rat \<Rightarrow> int" where
  \<comment> \<open>\<open>\<lfloor>log\<^sub>1\<^sub>0 a\<rfloor>\<close> for \<open>0 < a\<close>\<close>
  "ilog10 a = (let g = (ilog2 a * 30103) div 100000
               in if pow10 (g + 1) \<le> a then g + 1 else if pow10 g \<le> a then g else g - 1)"

definition roundTiesToEven :: "rat \<Rightarrow> int" where
  "roundTiesToEven q =
     (let n = \<lfloor>q\<rfloor>; f = q - of_int n
      in if f < 1 / 2 then n else if 1 / 2 < f then n + 1 else if even n then n else n + 1)"

definition fl :: "rat \<Rightarrow> number" where
  "fl x = (if x = 0 then Finite 0
           else let a = \<bar>x\<bar>;
                    e = max (ilog2 a) (- 1022);
                    u = pow2 (e - 52);
                    n = roundTiesToEven (a / u)
                in if 1024 \<le> e \<or> (e = 1023 \<and> n = 9007199254740992)
                   then (if 0 < x then PosInf else NegInf)
                   else Finite (if 0 < x then of_int n * u else - (of_int n * u)))"

text \<open>
  The arithmetic the program uses: a product and a quotient with a positive literal
  (\<open>score01 * 100\<close>, \<open>percentile / 1000\<close>, \<open>seed / 100\<close>), a sum of finite numbers,
  the comparison \<open>>=\<close>, \<open>Math.round\<close>, \<open>Math.min\<close> and \<open>Math.max\<close>.
\<close>

fun times_lit :: "number \<Rightarrow> rat \<Rightarrow> number" where
  "times_lit (Finite a) c = fl (a * c)"
| "times_lit n c = n"

fun divide_lit :: "number \<Rightarrow> rat \<Rightarrow> number" where
  "divide_lit (Finite a) c = fl (a / c)"
| "divide_lit n c = n"

fun num_ge :: "number \<Rightarrow> number \<Rightarrow> bool" where
  "num_ge NaN y = False"
| "num_ge x NaN = False"
| "num_ge PosInf y = True"
| "num_ge x NegInf = True"
| "num_ge NegInf y = False"
| "num_ge x PosInf = False"
| "num_ge (Finite a) (Finite b) = (b \<le> a)"

fun Math_round :: "number \<Rightarrow> number" where
  "Math_round (Finite a) = Finite (of_int \<lfloor>a + 1 / 2\<rfloor>)"
| "Math_round n = n"

fun Math_min :: "number \<Rightarrow> number \<Rightarrow> number" where
  "Math_min NaN y = NaN"
| "Math_min x NaN = NaN"
| "Math_min x y = (if num_ge x y then y else x)"

fun Math_max :: "number \<Rightarrow> number \<Rightarrow> number" where
  "Math_max NaN y = NaN"
| "Math_max x NaN = NaN"
| "Math_max x y = (if num_ge x y then x else y)"

fun num_plus :: "number \<Rightarrow> number \<Rightarrow> number" where
  "num_plus (Finite a) (Finite b) = fl (a + b)"
| "num_plus NaN y = NaN"
| "num_plus x NaN = NaN"
| "num_plus PosInf NegInf = NaN"
| "num_plus NegInf PosInf = NaN"
| "num_plus PosInf y = PosInf"
| "num_plus x PosInf = PosInf"
| "num_plus NegInf y = NegInf"
| "num_plus x NegInf = NegInf"

subsection \<open>Numbers as strings\<close>

text \<open>
  \<open>Number::toString\<close> prints the shortest decimal \<open>s \<times> 10 ^ (n - k)\<close>, \<open>s\<close> of \<open>k\<close>
  digits, that rounds to the number. \<open>candidate x n0 k\<close> looks for such an \<open>s\<close> of
  \<open>k\<close> digits (the two decimals of that length around \<open>x\<close>; the nearer one when both
  round to \<open>x\<close>, the even one when they are as near), \<open>shortest\<close> takes the least
  \<open>k\<close>: 17 digits tell any two doubles apart.
\<close>

definition candidate :: "rat \<Rightarrow> int \<Rightarrow> nat \<Rightarrow> int option" where
  "candidate x n0 k =
     (let scale = pow10 (n0 - int k);
          lo = \<lfloor>x / scale\<rfloor>;
          hi = lo + 1;
          okLo = (fl (of_int lo * scale) = Finite x);
          okHi = (fl (of_int hi * scale) = Finite x);
          dLo = x - of_int lo * scale;
          dHi = of_int hi * scale - x
      in if okLo \<and> okHi then
           (if dLo < dHi then Some lo else if dHi < dLo then Some hi
            else if even lo then Some lo else Some hi)
         else if okLo then Some lo
         else if okHi then Some hi
         else None)"

fun firstCandidate :: "rat \<Rightarrow> int \<Rightarrow> nat list \<Rightarrow> (int \<times> nat) option" where
  "firstCandidate x n0 [] = None"
| "firstCandidate x n0 (k # ks) =
     (case candidate x n0 k of
        Some s \<Rightarrow> Some (s, k)
      | None \<Rightarrow> firstCandidate x n0 ks)"

definition shortest :: "rat \<Rightarrow> jsstring \<times> int" where
  \<comment> \<open>the digits of \<open>s\<close> and the exponent \<open>n\<close>, for \<open>0 < x\<close>\<close>
  "shortest x =
     (let n0 = ilog10 x + 1 in
      case firstCandidate x n0 [1 ..< 18] of
        Some (s, k) \<Rightarrow> if s = 10 ^ k then (digits 1, n0 + 1) else (digits (nat s), n0)
      | None \<Rightarrow> (digits (nat (roundTiesToEven (x / pow10 (n0 - 17)))), n0))"

definition zeros :: "nat \<Rightarrow> jsstring" where
  "zeros m = replicate m (of_char CHR ''0'')"

definition exponential :: "jsstring \<Rightarrow> int \<Rightarrow> jsstring" where
  "exponential ds n =
     (let e = n - 1;
          tail = str ''e'' @ (if 0 \<le> e then str ''+'' else str ''-'') @ digits (nat \<bar>e\<bar>)
      in if length ds = 1 then ds @ tail else take 1 ds @ str ''.'' @ drop 1 ds @ tail)"

definition positional :: "rat \<Rightarrow> jsstring" where
  \<comment> \<open>\<open>Number::toString\<close> of a finite \<open>0 < x\<close>\<close>
  "positional x =
     (let (ds, n) = shortest x; k = int (length ds)
      in if k \<le> n \<and> n \<le> 21 then ds @ zeros (nat (n - k))
         else if 0 < n \<and> n \<le> 21 then take (nat n) ds @ str ''.'' @ drop (nat n) ds
         else if - 6 < n \<and> n \<le> 0 then str ''0.'' @ zeros (nat (- n)) @ ds
         else exponential ds n)"

text \<open>
  An integer below \<open>2 ^ 53\<close> is printed with all its digits: no shorter decimal rounds
  to it. The definition says so outright.
\<close>

definition isSafeInteger :: "rat \<Rightarrow> bool" where
  "isSafeInteger x = (of_int \<lfloor>x\<rfloor> = x \<and> \<bar>x\<bar> < 9007199254740992)"

fun Number_toString :: "number \<Rightarrow> jsstring" where
  "Number_toString NaN = str ''NaN''"
| "Number_toString PosInf = str ''Infinity''"
| "Number_toString NegInf = str ''-Infinity''"
| "Number_toString (Finite x) =
     (if isSafeInteger x then
        (if x < 0 then str ''-'' @ digits (nat \<lfloor>- x\<rfloor>) else digits (nat \<lfloor>x\<rfloor>))
      else if x < 0 then str ''-'' @ positional (- x)
      else positional x)"

text \<open>
  \<open>x.toFixed(1)\<close>: the integer \<open>n\<close> with \<open>n / 10\<close> nearest to \<open>x\<close>, the larger one of
  two, printed with one digit after the point; from \<open>10 ^ 21\<close> on, and for what is not
  finite, \<open>toFixed\<close> prints as \<open>toString\<close> does.
\<close>

fun toFixed1 :: "number \<Rightarrow> jsstring" where
  "toFixed1 (Finite x) =
     (if 10 ^ 21 \<le> \<bar>x\<bar> then Number_toString (Finite x)
      else let n = nat \<lfloor>\<bar>x\<bar> * 10 + 1 / 2\<rfloor>
           in (if x < 0 then str ''-'' else []) @ digits (n div 10) @ str ''.'' @ digits (n mod 10))"
| "toFixed1 n = Number_toString n"

subsection \<open>Values\<close>

text \<open>
  The values the program reads out of a parsed JSON document, with \<open>undefined\<close> for
  what is absent. An object is the list of its own properties.
\<close>

datatype js =
    JUndefined
  | JNull
  | JBool bool
  | JNum number
  | JStr jsstring
  | JArr "js list"
  | JObj "(jsstring \<times> js) list"

text \<open>\<open>ToBoolean\<close>: the test made by \<open>!v\<close>, \<open>v || w\<close> and \<open>v ? a : b\<close>.\<close>

fun truthy :: "js \<Rightarrow> bool" where
  "truthy JUndefined = False"
| "truthy JNull = False"
| "truthy (JBool b) = b"
| "truthy (JNum n) = (n \<noteq> NaN \<and> n \<noteq> Finite 0)"
| "truthy (JStr s) = (s \<noteq> [])"
| "truthy (JArr xs) = True"
| "truthy (JObj kvs) = True"

text \<open>
  The property read \<open>v[k]\<close> (or \<open>v.k\<close>), for the property names the program uses: none
  of them is an array index, \<open>length\<close> or a name found on a built-in prototype, so the
  read gives an own property of an object and \<open>undefined\<close> on every other value. The
  program makes a plain read only on a value it has tested to be truthy; on \<open>null\<close>
  and \<open>undefined\<close> it reads through \<open>?.\<close>, which is \<open>optGet\<close>.
\<close>

fun getProp :: "js \<Rightarrow> jsstring \<Rightarrow> js" where
  "getProp (JObj kvs) k = (case map_of kvs k of Some v \<Rightarrow> v | None \<Rightarrow> JUndefined)"
| "getProp v k = JUndefined"

definition optGet :: "js \<Rightarrow> jsstring \<Rightarrow> js" where
  "optGet v k = (if v = JNull \<or> v = JUndefined then JUndefined else getProp v k)"

text \<open>\<open>a || b\<close>\<close>

definition orElse :: "js \<Rightarrow> js \<Rightarrow> js" where
  "orElse a b = (if truthy a then a else b)"

section \<open>The report client (app.js)\<close>

subsection \<open>getTopOpportunities\<close>

definition keys :: "jsstring list" where
  "keys =
    [str ''largest-contentful-paint'',
     str ''render-blocking-resources'',
     str ''unused-javascript'',
     str ''unused-css-rules'',
     str ''uses-responsive-images'',
     str ''offscreen-images'',
     str ''uses-text-compression'']"

definition noOpportunities :: jsstring where
  "noOpportunities = str ''No major opportunities detected (or audit data was limited).''"

text \<open>
  The callback of \<open>keys.forEach\<close>: one key visited, \<open>items\<close> as it is afterwards
  (\<open>items.push(title)\<close> appends).
\<close>

definition visit :: "js \<Rightarrow> js list \<Rightarrow> jsstring \<Rightarrow> js list" where
  "visit audits items k =
     (let audit = getProp audits k in
      if \<not> truthy audit then items
      else if (case getProp audit (str ''score'') of
                 JNum n \<Rightarrow> num_ge n (fl (9 / 10))
               | _ \<Rightarrow> False) then items
      else let title = orElse (getProp audit (str ''title'')) (JStr k)
           in items @ [title])"

definition getTopOpportunities :: "js \<Rightarrow> js list" where
  "getTopOpportunities lighthouseResult =
     (let audits = orElse (optGet lighthouseResult (str ''audits'')) (JObj []);
          items = foldl (visit audits) [] keys
      in if length items = 0 then [JStr noOpportunities]
         else take 5 items)"

text \<open>
  What the scan is to compute, in the words of its description: an audit is an
  opportunity when it is there and its score is not a number that is at least 0.9;
  it is shown under its title, or under its key when it has none.
\<close>

definition auditsOf :: "js \<Rightarrow> js" where
  "auditsOf lighthouseResult = orElse (optGet lighthouseResult (str ''audits'')) (JObj [])"

definition isOpportunity :: "js \<Rightarrow> bool" where
  "isOpportunity audit =
     (truthy audit \<and>
      (case getProp audit (str ''score'') of
         JNum n \<Rightarrow> \<not> num_ge n (fl (9 / 10))
       | _ \<Rightarrow> True))"

definition shownTitle :: "js \<Rightarrow> jsstring \<Rightarrow> js" where
  "shownTitle audit k =
     (if truthy (getProp audit (str ''title'')) then getProp audit (str ''title'') else JStr k)"

subsection \<open>toPercent and formatCwvMetric\<close>

text \<open>The placeholder, an em dash (U+2014).\<close>

definition dash :: jsstring where
  "dash = [0x2014]"

definition toPercent :: "js \<Rightarrow> jsstring" where
  "toPercent score01 =
     (case score01 of
        JNum n \<Rightarrow> Number_toString (Math_round (times_lit n 100))
      | _ \<Rightarrow> dash)"

text \<open>Every call of \<open>formatCwvMetric\<close> passes the unit, so its default is not used.\<close>

definition formatCwvMetric :: "js \<Rightarrow> jsstring \<Rightarrow> jsstring" where
  "formatCwvMetric metricObj unit =
     (if \<not> truthy metricObj then dash
      else case getProp metricObj (str ''percentile'') of
             JNum percentile \<Rightarrow>
               if unit = str ''ms'' then Number_toString percentile @ str '' ms''
               else if unit = str ''s'' then toFixed1 (divide_lit percentile 1000) @ str '' s''
               else Number_toString percentile
           | _ \<Rightarrow> dash)"

subsection \<open>getMockPsiResponse\<close>

text \<open>\<open>Math.min(20, url.length % 20)\<close>, on the whole numbers that lengths are.\<close>

definition seedOf :: "jsstring \<Rightarrow> nat" where
  "seedOf url = min 20 (length url mod 20)"

definition clamp01 :: "number \<Rightarrow> number" where
  "clamp01 n = Math_max (Finite 0) (Math_min (Finite 1) n)"

definition score01 :: "nat \<Rightarrow> number \<Rightarrow> number" where
  "score01 seed base = clamp01 (num_plus base (divide_lit (Finite (of_nat seed)) 100))"

definition mockAudit :: "rat \<Rightarrow> string \<Rightarrow> js" where
  "mockAudit score title = JObj [(str ''score'', JNum (fl score)), (str ''title'', JStr (str title))]"

definition getMockPsiResponse :: "jsstring \<Rightarrow> js" where
  "getMockPsiResponse url =
     (let seed = seedOf url in
      JObj
       [(str ''lighthouseResult'', JObj
          [(str ''categories'', JObj
             [(str ''performance'', JObj [(str ''score'', JNum (score01 seed (fl (72 / 100))))]),
              (str ''accessibility'', JObj [(str ''score'', JNum (score01 seed (fl (88 / 100))))]),
              (str ''best-practices'', JObj [(str ''score'', JNum (score01 seed (fl (86 / 100))))]),
              (str ''seo'', JObj [(str ''score'', JNum (score01 seed (fl (84 / 100))))])]),
           (str ''audits'', JObj
             [(str ''largest-contentful-paint'', mockAudit (55 / 100) ''Improve Largest Contentful Paint''),
              (str ''render-blocking-resources'', mockAudit (65 / 100) ''Eliminate render-blocking resources''),
              (str ''unused-javascript'', mockAudit (7 / 10) ''Reduce unused JavaScript''),
              (str ''unused-css-rules'', mockAudit (75 / 100) ''Reduce unused CSS''),
              (str ''offscreen-images'', mockAudit (8 / 10) ''Defer offscreen images''),
              (str ''uses-text-compression'', mockAudit (85 / 100) ''Enable text compression'')])]),
        (str ''loadingExperience'', JObj
          [(str ''metrics'', JObj
             [(str ''LARGEST_CONTENTFUL_PAINT_MS'', JObj [(str ''percentile'', JNum (Finite 2500))]),
              (str ''INTERACTION_TO_NEXT_PAINT'', JObj [(str ''percentile'', JNum (Finite 190))]),
              (str ''CUMULATIVE_LAYOUT_SHIFT_SCORE'', JObj [(str ''percentile'', JNum (Finite 8))])])])])"

text \<open>The score the renderer reads for a category: \<open>lh?.categories?.[c]?.score\<close>.\<close>

definition categoryScore :: "js \<Rightarrow> string \<Rightarrow> js" where
  "categoryScore lh c = optGet (optGet (optGet lh (str ''categories'')) (str c)) (str ''score'')"

subsection \<open>normalizeUrl\<close>

text \<open>
  \<open>String.prototype.trim\<close> removes white space and line terminators from both ends;
  the class \<open>\s\<close> of a regular expression is the same set of code units.
\<close>

definition isWhiteSpace :: "16 word \<Rightarrow> bool" where
  "isWhiteSpace c =
     (c \<in> set [0x9, 0xA, 0xB, 0xC, 0xD, 0x20, 0xA0, 0x1680, 0x2028, 0x2029, 0x202F, 0x205F,
                0x3000, 0xFEFF]
      \<or> (0x2000 \<le> c \<and> c \<le> 0x200A))"

definition trim :: "jsstring \<Rightarrow> jsstring" where
  "trim s = rev (dropWhile isWhiteSpace (rev (dropWhile isWhiteSpace s)))"

definition startsWith :: "jsstring \<Rightarrow> jsstring \<Rightarrow> bool" where
  \<comment> \<open>\<open>s.startsWith(p)\<close>\<close>
  "startsWith s p = (take (length p) s = p)"

text \<open>
  \<open>new URL(s).toString()\<close> belongs to the platform, not to the program: \<open>parse s\<close> is
  the serialisation of the parsed address, \<open>None\<close> when the constructor throws.
  The result \<open>None\<close> of \<open>normalizeUrl\<close> is its \<open>null\<close>.
\<close>

definition normalizeUrl :: "(jsstring \<Rightarrow> jsstring option) \<Rightarrow> jsstring \<Rightarrow> jsstring option" where
  "normalizeUrl parse raw =
     (let trimmed = trim raw in
      if trimmed = [] then None
      else let withScheme =
                 (if startsWith trimmed (str ''http://'') \<or> startsWith trimmed (str ''https://'')
                  then trimmed
                  else str ''https://'' @ trimmed)
           in parse withScheme)"

subsection \<open>The page\<close>

text \<open>
  The elements the handler writes to: whether \<open>results\<close> carries the class \<open>hidden\<close>,
  the items of \<open>oppsList\<close> (each the value given to its \<open>textContent\<close>), the status
  line, the submit button and the display fields.
\<close>

record page =
  resultsHidden :: bool
  oppsItems :: "js list"
  statusText :: jsstring
  statusClass :: jsstring
  runDisabled :: bool
  runText :: jsstring
  perfScore :: jsstring
  a11yScore :: jsstring
  bpScore :: jsstring
  seoScore :: jsstring
  lcpEl :: jsstring
  inpEl :: jsstring
  clsEl :: jsstring
  cwvNote :: jsstring

definition setStatus :: "jsstring \<Rightarrow> jsstring \<Rightarrow> page \<Rightarrow> page" where
  "setStatus msg type pg = pg\<lparr>statusText := msg, statusClass := trim (str ''status '' @ type)\<rparr>"

definition setLoading :: "bool \<Rightarrow> page \<Rightarrow> page" where
  "setLoading isLoading pg =
     pg\<lparr>runDisabled := isLoading,
        runText := (if isLoading then str ''Running...'' else str ''Run Report'')\<rparr>"

text \<open>The marks that open a status line: a cross (U+274C) and a tick (U+2705).\<close>

definition cross :: jsstring where
  "cross = [0x274C]"

definition tick :: jsstring where
  "tick = [0x2705]"

subsection \<open>The error shown\<close>

text \<open>
  \<open>raw.replace(/<[^>]*>/g, "")\<close>: from left to right, a \<open><\<close> with a \<open>>\<close> somewhere after
  it is removed together with everything up to the first such \<open>>\<close>.
\<close>

function stripTags :: "jsstring \<Rightarrow> jsstring" where
  "stripTags [] = []"
| "stripTags (c # cs) =
     (if c = 0x3C \<and> 0x3E \<in> set cs then stripTags (tl (dropWhile (\<lambda>d. d \<noteq> 0x3E) cs))
      else c # stripTags cs)"
  by pat_completeness auto
termination
proof (relation "measure length")
  show "wf (measure length)" by simp
next
  fix c :: "16 word" and cs :: jsstring
  have "length (dropWhile (\<lambda>d. d \<noteq> 0x3E) cs) \<le> length cs"
    by (rule length_dropWhile_le)
  then show "(tl (dropWhile (\<lambda>d. d \<noteq> 0x3E) cs), c # cs) \<in> measure length"
    by simp
next
  fix c :: "16 word" and cs :: jsstring
  show "(cs, c # cs) \<in> measure length"
    by simp
qed

text \<open>\<open>.replace(/\s+/g, " ")\<close>: every run of white space becomes one space.\<close>

function collapseSpace :: "jsstring \<Rightarrow> jsstring" where
  "collapseSpace [] = []"
| "collapseSpace (c # cs) =
     (if isWhiteSpace c then 0x20 # collapseSpace (dropWhile isWhiteSpace cs)
      else c # collapseSpace cs)"
  by pat_completeness auto
termination
  by (relation "measure length")
     (auto simp add: less_Suc_eq_le length_dropWhile_le)

definition sanitize :: "jsstring \<Rightarrow> jsstring" where
  "sanitize raw = take 220 (trim (collapseSpace (stripTags raw)))"

text \<open>
  What the sanitised text is to be: \<open>hasTag s\<close> says that the expression
  \<open>/<[^>]*>/\<close> matches somewhere in \<open>s\<close> (a \<open><\<close> with a \<open>>\<close> after it);
  \<open>singleSpaced s\<close> says that the only white space in \<open>s\<close> are single spaces.
\<close>

fun hasTag :: "jsstring \<Rightarrow> bool" where
  "hasTag [] = False"
| "hasTag (c # cs) = ((c = 0x3C \<and> 0x3E \<in> set cs) \<or> hasTag cs)"

fun singleSpaced :: "jsstring \<Rightarrow> bool" where
  "singleSpaced [] = True"
| "singleSpaced [c] = (isWhiteSpace c \<longrightarrow> c = 0x20)"
| "singleSpaced (c # d # cs) =
     ((isWhiteSpace c \<longrightarrow> c = 0x20 \<and> \<not> isWhiteSpace d) \<and> singleSpaced (d # cs))"

text \<open>\<open>String(err?.message || "Something went wrong. Try again.")\<close>\<close>

definition messageOf :: "jsstring \<Rightarrow> jsstring" where
  "messageOf message = (if message \<noteq> [] then message else str ''Something went wrong. Try again.'')"

subsection \<open>The platform\<close>

text \<open>
  What the handler asks of its surroundings. A request either fails (the promise of
  \<open>fetch\<close> is rejected with an error of that message) or is answered; of an answer the
  program reads the status, and the body through \<open>text()\<close> or through \<open>json()\<close>,
  each of which gives its value (\<open>Inr\<close>) or is rejected with a message (\<open>Inl\<close>).
\<close>

record response =
  res_status :: nat
  res_text :: "jsstring + jsstring"
  res_json :: "jsstring + js"

datatype fetched = Rejected jsstring | Responded response

definition res_ok :: "response \<Rightarrow> bool" where
  "res_ok res = (200 \<le> res_status res \<and> res_status res \<le> 299)"

record platform =
  parseUrl :: "jsstring \<Rightarrow> jsstring option"
  encodeURIComponent :: "jsstring \<Rightarrow> jsstring"
  fetch :: "jsstring \<Rightarrow> fetched"

text \<open>
  What the handler does to the outside while it waits, each with the page as it is at
  that moment: the pause of the demo, and the request.
\<close>

datatype event = Timer nat | Fetch jsstring

subsection \<open>The submit handler of app.js\<close>

record config =
  MODE :: jsstring
  LIVE_ENDPOINT :: jsstring


definition lcpDisplay :: "js \<Rightarrow> jsstring" where
  "lcpDisplay metrics =
     (let lcp = optGet metrics (str ''LARGEST_CONTENTFUL_PAINT_MS'')
      in if truthy lcp then formatCwvMetric lcp (str ''s'') else dash)"

definition inpDisplay :: "js \<Rightarrow> jsstring" where
  "inpDisplay metrics =
     (let inp = optGet metrics (str ''INTERACTION_TO_NEXT_PAINT'')
      in if truthy inp then formatCwvMetric inp (str ''ms'') else dash)"

definition clsDisplay :: "js \<Rightarrow> jsstring" where
  "clsDisplay metrics =
     (let cls = optGet metrics (str ''CUMULATIVE_LAYOUT_SHIFT_SCORE'')
      in if truthy cls then formatCwvMetric cls (str ''raw'') else dash)"

definition noFieldData :: jsstring where
  "noFieldData = str ''Field (real-user) data was not available for this URL. Scores above are still useful as a lab audit.''"

definition demoNote :: jsstring where
  "demoNote = str ''Demo mode: values shown are realistic mock data to preview the report layout.''"

definition fieldNote :: jsstring where
  "fieldNote = str ''Field data availability depends on whether Chrome has enough real-user samples for this page/origin.''"

text \<open>The part of the handler that writes the report into the page.\<close>

definition render :: "config \<Rightarrow> js \<Rightarrow> page \<Rightarrow> page" where
  "render cfg data pg =
     (let lh = optGet data (str ''lighthouseResult'');
          metrics = optGet (optGet data (str ''loadingExperience'')) (str ''metrics'');
          opps = getTopOpportunities lh
      in pg\<lparr>perfScore := toPercent (categoryScore lh ''performance''),
            a11yScore := toPercent (categoryScore lh ''accessibility''),
            bpScore := toPercent (categoryScore lh ''best-practices''),
            seoScore := toPercent (categoryScore lh ''seo''),
            lcpEl := lcpDisplay metrics,
            inpEl := inpDisplay metrics,
            clsEl := clsDisplay metrics,
            cwvNote := (if \<not> truthy metrics then noFieldData
                        else if MODE cfg = str ''demo'' then demoNote
                        else fieldNote),
            oppsItems := opps,
            resultsHidden := False\<rparr>)"

text \<open>
  The first half of the \<open>try\<close> block: the report is obtained. The result is what was
  done to the outside, the page, and the report (\<open>Inr\<close>) or the message of the error
  thrown (\<open>Inl\<close>).
\<close>

definition obtain_report ::
  "config \<Rightarrow> platform \<Rightarrow> jsstring \<Rightarrow> page \<Rightarrow> (event \<times> page) list \<times> page \<times> (jsstring + js)" where
  "obtain_report cfg pf normalized pg =
     (if MODE cfg = str ''demo'' then
        ([(Timer 800, pg)],
         setStatus (tick @ str '' Demo report complete (mock data).'') (str ''good'') pg,
         Inr (getMockPsiResponse normalized))
      else if LIVE_ENDPOINT cfg = [] then
        ([], pg, Inl (str ''Live mode is not configured yet.''))
      else
        let pg1 = setStatus (str ''Running live mobile Lighthouse audit'' @ [0x2026]) [] pg;
            url = LIVE_ENDPOINT cfg @ str ''?url='' @ encodeURIComponent pf normalized;
            sent = [(Fetch url, pg1)]
        in case fetch pf url of
             Rejected message \<Rightarrow> (sent, pg1, Inl message)
           | Responded res \<Rightarrow>
               if \<not> res_ok res then
                 (case res_text res of
                    Inl message \<Rightarrow> (sent, pg1, Inl message)
                  | Inr errText \<Rightarrow>
                      (sent, pg1,
                       Inl (if errText \<noteq> [] then errText
                            else str ''Request failed: '' @ digits (res_status res))))
               else
                 (case res_json res of
                    Inl message \<Rightarrow> (sent, pg1, Inl message)
                  | Inr data \<Rightarrow>
                      (sent,
                       setStatus (tick @ str '' Live report complete.'') (str ''good'') pg1,
                       Inr data)))"

text \<open>
  The handler: the page it leaves and what it did to the outside. The \<open>catch\<close> clause
  shows the message of the error; the \<open>finally\<close> clause ends both ways out of \<open>try\<close>.
\<close>

definition rejected :: "page \<Rightarrow> page" where
  "rejected pg =
     setStatus (cross @ str '' Please enter a valid URL (example: https://example.com).'')
       (str ''bad'') pg"

definition submit :: "config \<Rightarrow> platform \<Rightarrow> jsstring \<Rightarrow> page \<Rightarrow> page \<times> (event \<times> page) list" where
  "submit cfg pf input pg0 =
     (let pg1 = pg0\<lparr>resultsHidden := True, oppsItems := []\<rparr> in
      case normalizeUrl (parseUrl pf) input of
        None \<Rightarrow> (rejected pg1, [])
      | Some normalized \<Rightarrow>
          if normalized = [] then (rejected pg1, [])
          else
            let pg2 = setStatus (str ''Running mobile Lighthouse audit'' @ [0x2026]) []
                        (setLoading True pg1);
                (events, pg3, outcome) = obtain_report cfg pf normalized pg2;
                pg4 = (case outcome of
                         Inr data \<Rightarrow> render cfg data pg3
                       | Inl message \<Rightarrow>
                           setStatus (cross @ str '' '' @ sanitize (messageOf message))
                             (str ''bad'') pg3)
            in (setLoading False pg4, events))"

section \<open>The live-only copy of the client\<close>

text \<open>
  The second copy of the client script has no demo mode: it always asks the proxy. It
  differs from app.js in three places: the interaction delay falls back on the older
  metric, the status line of a finished report is set after the page is written, and
  the message of an error is shown as it is.
\<close>

definition inpDisplay_liveOnly :: "js \<Rightarrow> jsstring" where
  "inpDisplay_liveOnly metrics =
     (let inp = optGet metrics (str ''INTERACTION_TO_NEXT_PAINT'');
          fid = optGet metrics (str ''FIRST_INPUT_DELAY_MS'')
      in if truthy inp then formatCwvMetric inp (str ''ms'')
         else if truthy fid then formatCwvMetric fid (str ''ms'')
         else dash)"

definition render_liveOnly :: "js \<Rightarrow> page \<Rightarrow> page" where
  "render_liveOnly data pg =
     (let lh = optGet data (str ''lighthouseResult'');
          metrics = optGet (optGet data (str ''loadingExperience'')) (str ''metrics'');
          opps = getTopOpportunities lh
      in setStatus (tick @ str '' Report complete.'') (str ''good'')
           (pg\<lparr>perfScore := toPercent (categoryScore lh ''performance''),
               a11yScore := toPercent (categoryScore lh ''accessibility''),
               bpScore := toPercent (categoryScore lh ''best-practices''),
               seoScore := toPercent (categoryScore lh ''seo''),
               lcpEl := lcpDisplay metrics,
               inpEl := inpDisplay_liveOnly metrics,
               clsEl := clsDisplay metrics,
               cwvNote := (if \<not> truthy metrics then noFieldData else fieldNote),
               oppsItems := oppsItems pg @ opps,
               resultsHidden := False\<rparr>))"

definition submit_liveOnly :: "platform \<Rightarrow> jsstring \<Rightarrow> page \<Rightarrow> page \<times> (event \<times> page) list" where
  "submit_liveOnly pf input pg0 =
     (let pg1 = pg0\<lparr>resultsHidden := True, oppsItems := []\<rparr> in
      case normalizeUrl (parseUrl pf) input of
        None \<Rightarrow> (rejected pg1, [])
      | Some normalized \<Rightarrow>
          if normalized = [] then (rejected pg1, [])
          else
            let pg2 = setStatus (str ''Running mobile Lighthouse audit'' @ [0x2026]) []
                        (setLoading True pg1);
                url = str ''/.netlify/functions/psi?url='' @ encodeURIComponent pf normalized;
                outcome =
                  (case fetch pf url of
                     Rejected message \<Rightarrow> Inl message
                   | Responded res \<Rightarrow>
                       if \<not> res_ok res then
                         (case res_text res of
                            Inl message \<Rightarrow> Inl message
                          | Inr errText \<Rightarrow>
                              Inl (if errText \<noteq> [] then errText
                                   else str ''Request failed: '' @ digits (res_status res)))
                       else res_json res);
                pg3 = (case outcome of
                         Inr data \<Rightarrow> render_liveOnly data pg2
                       | Inl message \<Rightarrow>
                           setStatus (cross @ str '' '' @ messageOf message) (str ''bad'') pg2)
            in (setLoading False pg3, [(Fetch url, pg2)]))"

section \<open>The proxy (netlify/functions/psi.js)\<close>

text \<open>
  The reply of the handler: status, headers, and the value whose \<open>JSON.stringify\<close> is
  the body.
\<close>

record reply =
  status :: nat
  headers :: "(jsstring \<times> jsstring) list"
  body :: js

text \<open>
  The runtime of the function: \<open>encodeURIComponent\<close>, \<open>fetch\<close>, and the messages of the
  two errors that the constructor \<open>Response\<close> throws. It throws a \<open>RangeError\<close> for a
  status outside 200 to 599, and a \<open>TypeError\<close> when a body is given with a status
  that allows none (204, 205, 304).
\<close>

record runtime =
  rt_encodeURIComponent :: "jsstring \<Rightarrow> jsstring"
  rt_fetch :: "jsstring \<Rightarrow> fetched"
  statusRangeMessage :: jsstring
  nullBodyMessage :: jsstring

definition new_Response ::
  "runtime \<Rightarrow> js \<Rightarrow> nat \<Rightarrow> (jsstring \<times> jsstring) list \<Rightarrow> jsstring + reply" where
  "new_Response rt b st hs =
     (if st < 200 \<or> 599 < st then Inl (statusRangeMessage rt)
      else if st = 204 \<or> st = 205 \<or> st = 304 then Inl (nullBodyMessage rt)
      else Inr \<lparr>status = st, headers = hs, body = b\<rparr>)"

definition jsonHeaders :: "(jsstring \<times> jsstring) list" where
  "jsonHeaders = [(str ''Content-Type'', str ''application/json'')]"

definition missingUrl :: reply where
  "missingUrl =
     \<lparr>status = 400, headers = jsonHeaders,
      body = JObj [(str ''ok'', JBool False), (str ''error'', JStr (str ''Missing ?url=''))]\<rparr>"

definition missingKey :: reply where
  "missingKey =
     \<lparr>status = 500, headers = jsonHeaders,
      body = JObj [(str ''ok'', JBool False),
                   (str ''error'', JStr (str ''Server missing PSI_API_KEY env var''))]\<rparr>"

text \<open>The \<open>catch\<close> clause of the handler.\<close>

definition caught :: "jsstring \<Rightarrow> reply" where
  "caught message =
     \<lparr>status = 500, headers = jsonHeaders,
      body = JObj [(str ''ok'', JBool False), (str ''error'', JStr message)]\<rparr>"

text \<open>
  The handler, given the runtime, the value of \<open>process.env.PSI_API_KEY\<close> (\<open>None\<close>
  when it is not set) and the query parameters of the request, in their order
  (\<open>searchParams.get\<close> gives the first value of a name). The result is the list of
  addresses it fetched and its reply.
\<close>

definition handler ::
  "runtime \<Rightarrow> jsstring option \<Rightarrow> (jsstring \<times> jsstring) list \<Rightarrow> jsstring list \<times> reply" where
  "handler rt PSI_API_KEY searchParams =
     (case map_of searchParams (str ''url'') of
        None \<Rightarrow> ([], missingUrl)
      | Some target \<Rightarrow>
          if target = [] then ([], missingUrl)
          else
            let strategy = str ''mobile'' in
            (case PSI_API_KEY of
              None \<Rightarrow> ([], missingKey)
            | Some apiKey \<Rightarrow>
                if apiKey = [] then ([], missingKey)
                else
                  let endpoint =
                        str ''https://www.googleapis.com/pagespeedonline/v5/runPagespeed''
                        @ str ''?url='' @ rt_encodeURIComponent rt target
                        @ str ''&strategy='' @ strategy
                        @ str ''&key='' @ apiKey
                  in (case rt_fetch rt endpoint of
                       Rejected message \<Rightarrow> ([endpoint], caught message)
                     | Responded psiRes \<Rightarrow>
                         (case res_json psiRes of
                            Inl message \<Rightarrow> ([endpoint], caught message)
                          | Inr data \<Rightarrow>
                              if \<not> res_ok psiRes then
                                (case new_Response rt
                                        (JObj [(str ''ok'', JBool False),
                                               (str ''error'', JStr (str ''PSI request failed'')),
                                               (str ''details'', data)])
                                        (res_status psiRes) jsonHeaders of
                                   Inl message \<Rightarrow> ([endpoint], caught message)
                                 | Inr r \<Rightarrow> ([endpoint], r))
                              else
                                ([endpoint],
                                 \<lparr>status = 200,
                                  headers = jsonHeaders
                                    @ [(str ''Cache-Control'', str ''public, max-age=300'')],
                                  body = data\<rparr>)))))"

text \<open>The address that the handler fetches, for a target and a key.\<close>

definition endpointOf :: "runtime \<Rightarrow> jsstring \<Rightarrow> jsstring \<Rightarrow> jsstring" where
  "endpointOf rt target apiKey =
     str ''https://www.googleapis.com/pagespeedonline/v5/runPagespeed''
     @ str ''?url='' @ rt_encodeURIComponent rt target
     @ str ''&strategy='' @ str ''mobile''
     @ str ''&key='' @ apiKey"

section \<open>Examples\<close>

text \<open>
  What the address parser of the platform gives on the addresses of the examples:
  \<open>https://example.com\<close> and \<open>https://example.com/\<close> are both written back as
  \<open>https://example.com/\<close>, and \<open>https://a b\<close> is refused, a space not being allowed
  in a host name. On every other string this table says \<open>None\<close>, which is no statement
  about the parser: the table stands for it at these three addresses only, in examples,
  and every theorem about \<open>normalizeUrl\<close> and the handlers holds for any parser.
\<close>

definition URL_known :: "jsstring \<Rightarrow> jsstring option" where
  "URL_known s =
     (if s = str ''https://example.com'' \<or> s = str ''https://example.com/''
      then Some (str ''https://example.com/'')
      else None)"

text \<open>
  A page before a submission, and a platform whose proxy answers every request with
  the status 404 and the body \<open>Not Found\<close>.
\<close>

definition blank :: page where
  "blank =
     \<lparr>resultsHidden = True, oppsItems = [], statusText = [], statusClass = str ''status'',
      runDisabled = False, runText = str ''Run Report'',
      perfScore = dash, a11yScore = dash, bpScore = dash, seoScore = dash,
      lcpEl = dash, inpEl = dash, clsEl = dash, cwvNote = []\<rparr>"

definition notFound :: platform where
  "notFound =
     \<lparr>parseUrl = URL_known,
      encodeURIComponent = (\<lambda>s. str ''https%3A%2F%2Fexample.com%2F''),
      fetch = (\<lambda>url. Responded
        \<lparr>res_status = 404, res_text = Inr (str ''Not Found''),
         res_json = Inl (str ''Unexpected token N in JSON at position 0'')\<rparr>)\<rparr>"

definition live :: config where
  "live = \<lparr>MODE = str ''live'', LIVE_ENDPOINT = str ''/.netlify/functions/psi''\<rparr>"

text \<open>
  A runtime whose upstream answers every request with the status 502 and an HTML page,
  which \<open>json()\<close> cannot read.
\<close>

definition badGateway :: response where
  "badGateway =
     \<lparr>res_status = 502, res_text = Inr (str ''<html>Bad Gateway</html>''),
      res_json = Inl (str ''Unexpected token < in JSON at position 0'')\<rparr>"

definition upstream502 :: runtime where
  "upstream502 =
     \<lparr>rt_encodeURIComponent = (\<lambda>s. str ''https%3A%2F%2Fexample.com%2F''),
      rt_fetch = (\<lambda>url. Responded badGateway),
      statusRangeMessage = str ''init[status] must be in the range of 200 to 599, inclusive.'',
      nullBodyMessage = str ''Response constructor: Invalid response status code''\<rparr>"

text \<open>A runtime whose upstream answers with the status 429 and a JSON body.\<close>

definition quotaExceeded :: response where
  "quotaExceeded =
     \<lparr>res_status = 429, res_text = Inr (str ''[429]''),
      res_json = Inr (JArr [JNum (Finite 429)])\<rparr>"

definition upstream429 :: runtime where
  "upstream429 = upstream502\<lparr>rt_fetch := (\<lambda>url. Responded quotaExceeded)\<rparr>"



section \<open>String literals\<close>

lemma unat_of_char: "unat (of_char c :: 16 word) = of_char c"
proof -
  have small: "(of_char c :: nat) < 256"
    by (metis of_char_mod_256 mod_less_divisor zero_less_numeral)
  have "(of_char c :: 16 word) = of_nat (of_char c)"
    by (simp add: of_nat_of_char)
  then have "unat (of_char c :: 16 word) = of_char c mod 2 ^ 16"
    by (simp add: unat_of_nat)
  moreover have "(of_char c :: nat) < 2 ^ 16"
    by (rule less_trans [OF small]) simp
  then have "(of_char c :: nat) mod 2 ^ 16 = of_char c"
    by (rule mod_less)
  ultimately show ?thesis by (simp only:)
qed

lemma of_char_word_eq_iff [simp]: "(of_char c :: 16 word) = of_char d \<longleftrightarrow> c = d"
proof
  assume "(of_char c :: 16 word) = of_char d"
  then have "unat (of_char c :: 16 word) = unat (of_char d :: 16 word)" by simp
  then have "(of_char c :: nat) = of_char d" by (simp only: unat_of_char)
  then show "c = d" by simp
qed simp

lemma str_eq_iff [simp]: "str a = str b \<longleftrightarrow> a = b"
  unfolding str_def by (rule inj_map_eq_map) (simp add: inj_on_def)

lemma str_Nil [simp]: "str [] = []"
  by (simp add: str_def)

lemma str_eq_Nil_iff [simp]: "str a = [] \<longleftrightarrow> a = []"
  by (simp add: str_def)

lemma str_append: "str (a @ b) = str a @ str b"
  by (simp add: str_def)

section \<open>Rounding to a double\<close>

lemma bitlen_bounds: "0 < n \<Longrightarrow> 2 ^ (bitlen n - 1) \<le> n \<and> n < 2 ^ bitlen n"
proof (induction n rule: bitlen.induct)
  case (1 n)
  show ?case
  proof (cases "n div 2 = 0")
    case True
    with "1.prems" have "n = 1" by presburger
    then show ?thesis by (simp add: bitlen.simps)
  next
    case False
    with "1.prems" have pos: "0 < n div 2" by presburger
    from "1.IH" [OF _ pos] "1.prems"
    have ih: "2 ^ (bitlen (n div 2) - 1) \<le> n div 2" "n div 2 < 2 ^ bitlen (n div 2)"
      by simp_all
    have bl: "bitlen n = Suc (bitlen (n div 2))"
      using "1.prems" by (subst bitlen.simps) simp
    have bpos: "0 < bitlen (n div 2)"
      using pos by (subst bitlen.simps) simp
    have "(2 :: int) ^ (bitlen n - 1) = 2 * 2 ^ (bitlen (n div 2) - 1)"
      using bpos bl by (cases "bitlen (n div 2)") simp_all
    also have "\<dots> \<le> 2 * (n div 2)" using ih(1) by simp
    also have "\<dots> \<le> n" by presburger
    finally have lower: "2 ^ (bitlen n - 1) \<le> n" .
    have "n < 2 * (n div 2) + 2" by presburger
    also have "\<dots> \<le> 2 * 2 ^ bitlen (n div 2)" using ih(2) by simp
    finally have upper: "n < 2 ^ bitlen n" by (simp add: bl)
    from lower upper show ?thesis ..
  qed
qed

lemma pow2_powi: "pow2 e = 2 powi e"
  by (simp add: pow2_def power_int_def field_simps)

lemma pow2_pos: "0 < pow2 e"
  by (simp add: pow2_powi)

lemma pow2_mono: "i \<le> j \<Longrightarrow> pow2 i \<le> pow2 j"
  by (simp add: pow2_powi power_int_increasing)

lemma pow2_less_iff: "pow2 i < pow2 j \<longleftrightarrow> i < j"
proof
  assume "pow2 i < pow2 j"
  show "i < j"
  proof (rule ccontr)
    assume "\<not> i < j"
    then have "pow2 j \<le> pow2 i" by (simp add: pow2_mono)
    with \<open>pow2 i < pow2 j\<close> show False by simp
  qed
next
  assume "i < j"
  then show "pow2 i < pow2 j"
    by (simp add: pow2_powi power_int_strict_increasing)
qed

lemma pow2_nat: "pow2 (int k) = 2 ^ k"
  by (simp add: pow2_def)

lemma pow2_diff_nat: "pow2 (int i - int j) = 2 ^ i / 2 ^ j"
  by (simp add: pow2_powi power_int_diff)

lemma ilog2_lower:
  assumes "0 < a"
  shows "pow2 (ilog2 a) \<le> a"
proof -
  obtain p q where pq: "quotient_of a = (p, q)" by (cases "quotient_of a")
  then have q: "0 < q" and a: "a = of_int p / of_int q"
    by (simp_all add: quotient_of_denom_pos quotient_of_div)
  from assms a q have p: "0 < p" by (simp add: zero_less_divide_iff)
  define bp where "bp = bitlen p"
  define bq where "bq = bitlen q"
  from bitlen_bounds [of p] p have lp: "2 ^ (bp - 1) \<le> p" and bp: "0 < bp"
    by (auto simp add: bp_def bitlen.simps [of p])
  from bitlen_bounds [of q] q have uq: "q < 2 ^ bq"
    by (simp add: bq_def)
  have lp': "(2::rat) ^ (bp - 1) \<le> of_int p"
    using lp by (metis of_int_le_iff of_int_numeral of_int_power)
  have uq': "of_int q \<le> (2::rat) ^ bq"
    using uq by (metis less_imp_le of_int_le_iff of_int_numeral of_int_power)
  have "pow2 (int bp - int bq - 1) = 2 ^ (bp - 1) / 2 ^ bq"
    using bp pow2_diff_nat [of "bp - 1" bq] by (simp add: algebra_simps)
  also have "\<dots> \<le> of_int p / of_int q"
    using lp' uq' q p by (intro frac_le) simp_all
  finally have low: "pow2 (int bp - int bq - 1) \<le> a" by (simp add: a)
  show ?thesis
    unfolding ilog2_def pq using low
    by (simp add: Let_def bp_def bq_def)
qed

lemma ilog2_less: "0 < a \<Longrightarrow> a < pow2 k \<Longrightarrow> ilog2 a < k"
  using ilog2_lower [of a] pow2_less_iff [of "ilog2 a" k] by simp


lemma roundTiesToEven_nonneg: "0 \<le> q \<Longrightarrow> 0 \<le> roundTiesToEven q"
  by (auto simp add: roundTiesToEven_def Let_def)

lemma fl_not_NaN: "fl x \<noteq> NaN"
  by (simp add: fl_def Let_def)

lemma fl_nonneg: "0 \<le> x \<Longrightarrow> fl x = PosInf \<or> (\<exists>y. fl x = Finite y \<and> 0 \<le> y)"
proof (cases "x = 0")
  case True
  then show ?thesis by (simp add: fl_def)
next
  case False
  assume "0 \<le> x"
  with False have x: "0 < x" by simp
  define e where "e = max (ilog2 x) (- 1022)"
  have "0 \<le> of_int (roundTiesToEven (x / pow2 (e - 52))) * pow2 (e - 52)"
    using pow2_pos [of "e - 52"] roundTiesToEven_nonneg [of "x / pow2 (e - 52)"] x
    by simp
  then show ?thesis using x
    by (simp add: fl_def Let_def e_def)
qed


section \<open>Constants of the number model\<close>

lemma fl_0_9: "fl (9 / 10) = Finite (8106479329266893 / 9007199254740992)"
  by code_simp

section \<open>Opportunity extraction\<close>

lemma visit_step:
  "visit audits items k =
     items @ (if isOpportunity (getProp audits k) then [shownTitle (getProp audits k) k] else [])"
  by (cases "getProp (getProp audits k) (str ''score'')")
     (simp_all add: visit_def isOpportunity_def shownTitle_def orElse_def Let_def)

lemma foldl_visit:
  "foldl (visit audits) acc ks =
     acc @ map (\<lambda>k. shownTitle (getProp audits k) k)
               (filter (\<lambda>k. isOpportunity (getProp audits k)) ks)"
proof (induction ks arbitrary: acc)
  case Nil
  show ?case by simp
next
  case (Cons k ks)
  have "foldl (visit audits) acc (k # ks) = foldl (visit audits) (visit audits acc k) ks"
    by (simp only: foldl_Cons)
  also have "\<dots> = visit audits acc k
      @ map (\<lambda>k. shownTitle (getProp audits k) k)
            (filter (\<lambda>k. isOpportunity (getProp audits k)) ks)"
    by (rule Cons.IH)
  also have "\<dots> = acc @ map (\<lambda>k. shownTitle (getProp audits k) k)
                         (filter (\<lambda>k. isOpportunity (getProp audits k)) (k # ks))"
    by (simp add: visit_step)
  finally show ?case .
qed

text \<open>
  C1. For every value of \<open>lighthouseResult\<close>, \<open>getTopOpportunities\<close> scans the fixed
  list of keys in its order, keeps the keys whose audit is there and is not already
  good (a score that is a number and at least 0.9), and lists their titles in that
  order, at most five of them; when no key is kept the result is the one fallback
  line, so the result is never empty. An audit whose score is \<open>null\<close> or absent is
  kept, and an audit with a title is listed under that title.
\<close>

theorem getTopOpportunities_spec:
  "getTopOpportunities lh =
     (let titles = map (\<lambda>k. shownTitle (getProp (auditsOf lh) k) k)
                       (filter (\<lambda>k. isOpportunity (getProp (auditsOf lh) k)) keys)
      in if titles = [] then [JStr noOpportunities] else take 5 titles)
   \<and> getTopOpportunities lh \<noteq> []
   \<and> length (getTopOpportunities lh) \<le> 5
   \<and> (truthy a \<longrightarrow>
        (isOpportunity a \<longleftrightarrow>
           \<not> (\<exists>n. getProp a (str ''score'') = JNum n \<and> num_ge n (fl (9 / 10)))))
   \<and> (truthy a \<and> (getProp a (str ''score'') = JNull \<or> getProp a (str ''score'') = JUndefined)
        \<longrightarrow> isOpportunity a)
   \<and> (truthy (getProp a (str ''title'')) \<longrightarrow> shownTitle a k = getProp a (str ''title''))"
proof -
  let ?titles = "map (\<lambda>k. shownTitle (getProp (auditsOf lh) k) k)
                     (filter (\<lambda>k. isOpportunity (getProp (auditsOf lh) k)) keys)"
  have scan: "foldl (visit (auditsOf lh)) [] keys = ?titles"
    by (simp add: foldl_visit)
  have eq: "getTopOpportunities lh =
              (if ?titles = [] then [JStr noOpportunities] else take 5 ?titles)"
    unfolding getTopOpportunities_def auditsOf_def [symmetric] Let_def scan
    by simp
  have nonempty: "getTopOpportunities lh \<noteq> []"
    unfolding eq by simp
  have capped: "length (getTopOpportunities lh) \<le> 5"
    unfolding eq by simp
  have good: "truthy a \<longrightarrow>
      (isOpportunity a \<longleftrightarrow>
         \<not> (\<exists>n. getProp a (str ''score'') = JNum n \<and> num_ge n (fl (9 / 10))))"
    by (cases "getProp a (str ''score'')") (simp_all add: isOpportunity_def)
  have unknown: "truthy a \<and>
      (getProp a (str ''score'') = JNull \<or> getProp a (str ''score'') = JUndefined)
      \<longrightarrow> isOpportunity a"
    by (auto simp add: isOpportunity_def)
  have title: "truthy (getProp a (str ''title'')) \<longrightarrow> shownTitle a k = getProp a (str ''title'')"
    by (simp add: shownTitle_def)
  from eq nonempty capped good unknown title show ?thesis
    unfolding Let_def by blast
qed

theorem getTopOpportunities_spec_witness:
  "getTopOpportunities
     (JObj [(str ''audits'', JObj
        [(str ''unused-javascript'', JObj [(str ''score'', JNum (Finite 1)), (str ''title'', JStr (str ''Reduce unused JavaScript''))]),
         (str ''offscreen-images'', JObj [(str ''score'', JNull)]),
         (str ''largest-contentful-paint'',
            JObj [(str ''score'', JNum (Finite (1 / 2))), (str ''title'', JStr (str ''Improve Largest Contentful Paint''))])])])
   = [JStr (str ''Improve Largest Contentful Paint''), JStr (str ''offscreen-images'')]
   \<and> isOpportunity (JObj [(str ''score'', JNull)])
   \<and> shownTitle (JObj [(str ''title'', JStr (str ''Reduce unused CSS''))]) (str ''unused-css-rules'')
       = JStr (str ''Reduce unused CSS'')"
  using getTopOpportunities_spec
     [of "JObj [(str ''audits'', JObj
        [(str ''unused-javascript'', JObj [(str ''score'', JNum (Finite 1)), (str ''title'', JStr (str ''Reduce unused JavaScript''))]),
         (str ''offscreen-images'', JObj [(str ''score'', JNull)]),
         (str ''largest-contentful-paint'',
            JObj [(str ''score'', JNum (Finite (1 / 2))), (str ''title'', JStr (str ''Improve Largest Contentful Paint''))])])]"
         "JObj [(str ''score'', JNull)]"]
        getTopOpportunities_spec
     [of JNull "JObj [(str ''title'', JStr (str ''Reduce unused CSS''))]" "str ''unused-css-rules''"]
  by (simp add: auditsOf_def optGet_def orElse_def keys_def isOpportunity_def shownTitle_def fl_0_9)

section \<open>Percentages\<close>






section \<open>The demo report\<close>

lemma clamp01_range: "n \<noteq> NaN \<Longrightarrow> \<exists>r. clamp01 n = Finite r \<and> 0 \<le> r \<and> r \<le> 1"
  by (cases n) (auto simp add: clamp01_def)

lemma num_plus_fl_not_NaN:
  assumes "0 \<le> b" and "0 \<le> c"
  shows "num_plus (fl b) (fl c) \<noteq> NaN"
proof -
  from fl_nonneg [OF assms(1)] fl_nonneg [OF assms(2)] show ?thesis
    by (auto simp add: fl_not_NaN)
qed

lemma score01_range:
  assumes "0 \<le> b"
  shows "\<exists>r. score01 seed (fl b) = Finite r \<and> 0 \<le> r \<and> r \<le> 1"
proof -
  have "num_plus (fl b) (fl (of_nat seed / 100)) \<noteq> NaN"
    using assms by (intro num_plus_fl_not_NaN) simp_all
  then show ?thesis
    unfolding score01_def by (intro clamp01_range) simp
qed

lemma seedOf_eq: "seedOf url = length url mod 20"
  by (simp add: seedOf_def)

lemma mock_category:
  "c \<in> set [''performance'', ''accessibility'', ''best-practices'', ''seo''] \<Longrightarrow>
   categoryScore (optGet (getMockPsiResponse url) (str ''lighthouseResult'')) c =
     JNum (score01 (seedOf url)
       (fl (if c = ''performance'' then 72 / 100 else if c = ''accessibility'' then 88 / 100
            else if c = ''best-practices'' then 86 / 100 else 84 / 100)))"
  by (auto simp add: getMockPsiResponse_def categoryScore_def optGet_def Let_def)

lemma roundTiesToEven_error: "\<bar>of_int (roundTiesToEven q) - q\<bar> \<le> 1 / 2"
proof -
  define f where "f = q - of_int \<lfloor>q\<rfloor>"
  have f: "0 \<le> f" "f < 1" unfolding f_def by linarith+
  have q: "q = of_int \<lfloor>q\<rfloor> + f" by (simp add: f_def)
  consider "f < 1 / 2" | "1 / 2 < f" | "f = 1 / 2" by linarith
  then show ?thesis
  proof cases
    case 1
    then have "roundTiesToEven q = \<lfloor>q\<rfloor>"
      by (simp add: roundTiesToEven_def Let_def f_def)
    then have "of_int (roundTiesToEven q) - q = - f" by (simp add: f_def)
    with f 1 show ?thesis by simp
  next
    case 2
    then have "roundTiesToEven q = \<lfloor>q\<rfloor> + 1"
      by (simp add: roundTiesToEven_def Let_def f_def)
    then have "of_int (roundTiesToEven q) - q = 1 - f" by (simp add: f_def)
    with f 2 show ?thesis by simp
  next
    case 3
    then have "roundTiesToEven q = \<lfloor>q\<rfloor> \<or> roundTiesToEven q = \<lfloor>q\<rfloor> + 1"
      by (simp add: roundTiesToEven_def Let_def f_def)
    then have "of_int (roundTiesToEven q) - q = - f \<or> of_int (roundTiesToEven q) - q = 1 - f"
      by (auto simp add: f_def)
    with 3 show ?thesis by auto
  qed
qed

lemma fl_error:
  assumes x: "0 \<le> x" and small: "x < 2"
  shows "\<exists>y. fl x = Finite y \<and> 0 \<le> y \<and> \<bar>y - x\<bar> \<le> 1 / 2 ^ 53"
proof (cases "x = 0")
  case True
  then show ?thesis by (simp add: fl_def)
next
  case False
  with x have pos: "0 < x" by simp
  have "x < pow2 1" using small by (simp add: pow2_def)
  with pos have "ilog2 x < 1" by (rule ilog2_less)
  define e where "e = max (ilog2 x) (- 1022)"
  have e: "e \<le> 0" using \<open>ilog2 x < 1\<close> by (simp add: e_def)
  define u where "u = pow2 (e - 52)"
  have u: "0 < u" by (simp add: u_def pow2_pos)
  have "u \<le> pow2 (- 52)" unfolding u_def using e by (intro pow2_mono) simp
  then have u52: "u \<le> 1 / 2 ^ 52" by (simp add: pow2_def)
  define n where "n = roundTiesToEven (x / u)"
  have "0 \<le> n" unfolding n_def using pos u by (intro roundTiesToEven_nonneg) simp
  then have nonneg: "0 \<le> of_int n * u" using u by simp
  have "\<bar>of_int n * u - x\<bar> = u * \<bar>of_int n - x / u\<bar>"
  proof -
    have "of_int n * u - x = u * (of_int n - x / u)" using u by (simp add: field_simps)
    then show ?thesis using u by (simp add: abs_mult)
  qed
  also have "\<dots> \<le> u * (1 / 2)"
    using roundTiesToEven_error [of "x / u"] u unfolding n_def
    by (intro mult_left_mono) simp_all
  also have "\<dots> \<le> (1 / 2 ^ 52) * (1 / 2)" using u52 by simp
  finally have err: "\<bar>of_int n * u - x\<bar> \<le> 1 / 2 ^ 53" by simp
  have "\<not> (1024 \<le> e \<or> (e = 1023 \<and> n = 9007199254740992))"
    using e by simp
  then have "fl x = Finite (of_int n * u)"
    using pos unfolding fl_def Let_def n_def u_def e_def by simp
  with nonneg err show ?thesis by simp
qed

lemma clamp01_Finite: "clamp01 (Finite t) = Finite (max 0 (min 1 t))"
  by (simp add: clamp01_def max_def min_def)

lemma clamp_lipschitz:
  fixes t x :: rat
  shows "\<bar>max 0 (min 1 t) - max 0 (min 1 x)\<bar> \<le> \<bar>t - x\<bar>"
  by (simp add: max_def min_def abs_if)

lemma score01_formula:
  assumes base: "0 \<le> base" "base \<le> 9 / 10" and seed: "seed < 20"
  shows "\<exists>b s t. fl base = Finite b \<and> fl (of_nat seed / 100) = Finite s \<and> fl (b + s) = Finite t
           \<and> score01 seed (fl base) = Finite (max 0 (min 1 t))
           \<and> \<bar>max 0 (min 1 t) - max 0 (min 1 (base + of_nat seed / 100))\<bar> \<le> 3 / 2 ^ 53"
proof -
  define eps :: rat where "eps = 1 / 2 ^ 53"
  have eps: "0 < eps" "eps < 1 / 100" by (simp_all add: eps_def)
  from base have "base < 2" by simp
  with fl_error [OF base(1)] obtain b where b: "fl base = Finite b" "0 \<le> b" "\<bar>b - base\<bar> \<le> eps"
    unfolding eps_def by blast
  have sd: "(of_nat seed :: rat) < 20" using seed by (metis of_nat_less_iff of_nat_numeral)
  define x :: rat where "x = of_nat seed / 100"
  have x: "0 \<le> x" "x < 1 / 5" using sd by (simp_all add: x_def)
  then have "x < 2" by simp
  with fl_error [OF x(1)] obtain s where s: "fl x = Finite s" "0 \<le> s" "\<bar>s - x\<bar> \<le> eps"
    unfolding eps_def by blast
  have bs0: "0 \<le> b + s" using b(2) s(2) by simp
  have bs2: "b + s < 2" using b(3) s(3) base(2) x(2) eps by linarith
  from fl_error [OF bs0 bs2] obtain t where t: "fl (b + s) = Finite t" "\<bar>t - (b + s)\<bar> \<le> eps"
    unfolding eps_def by blast
  have "\<bar>t - (base + x)\<bar> \<le> 3 * eps"
    using t(2) b(3) s(3) by linarith
  with clamp_lipschitz [of t "base + x"]
  have "\<bar>max 0 (min 1 t) - max 0 (min 1 (base + x))\<bar> \<le> 3 * eps"
    by (rule order_trans)
  then have close: "\<bar>max 0 (min 1 t) - max 0 (min 1 (base + of_nat seed / 100))\<bar> \<le> 3 / 2 ^ 53"
    by (simp add: x_def eps_def)
  have "score01 seed (fl base) = Finite (max 0 (min 1 t))"
    using b(1) s(1) t(1) by (simp add: score01_def x_def clamp01_Finite)
  with b(1) s(1) t(1) close show ?thesis unfolding x_def by blast
qed

lemma fl_0_72: "fl (72 / 100) = Finite (3242591731706757 / 4503599627370496)"
  by code_simp

lemma fl_0_88: "fl (88 / 100) = Finite (7926335344172073 / 9007199254740992)"
  by code_simp

lemma fl_0_00: "fl (of_nat 0 / 100) = Finite 0"
  by code_simp

lemma fl_0_05: "fl (of_nat 5 / 100) = Finite (3602879701896397 / 72057594037927936)"
  by code_simp

lemma fl_0_19: "fl (of_nat 19 / 100) = Finite (3422735716801577 / 18014398509481984)"
  by code_simp

lemma fl_sum_0_72_0_00:
  "fl (3242591731706757 / 4503599627370496 + 0)
     = Finite (3242591731706757 / 4503599627370496)"
  by code_simp

lemma fl_sum_0_72_0_05:
  "fl (3242591731706757 / 4503599627370496 + 3602879701896397 / 72057594037927936)
     = Finite (1733885856537641 / 2251799813685248)"
  by code_simp

lemma fl_sum_0_88_0_19:
  "fl (7926335344172073 / 9007199254740992 + 3422735716801577 / 18014398509481984)
     = Finite (4818851601286431 / 4503599627370496)"
  by code_simp

lemma length_example_a: "length (str ''https://www.example.com/a'') = 25"
  by (simp add: str_def)

lemma length_example_landing: "length (str ''https://www.example.com/landing-page-01'') = 39"
  by (simp add: str_def)

lemma length_example_com: "length (str ''https://example.com/'') = 20"
  by (simp add: str_def)

lemma length_example_org: "length (str ''https://example.org/'') = 20"
  by (simp add: str_def)

text \<open>
  C3. The demo report is a function of the address alone, and its scores depend on
  nothing but the length of the address modulo 20: that remainder is the offset, which
  lies in [0, 20). Each category score is the base of the category (performance 0.72,
  accessibility 0.88, best-practices 0.86, seo 0.84) plus a hundredth of the offset,
  clamped to [0, 1]: the base and the hundredth of the offset are rounded to doubles
  \<open>b\<close> and \<open>s\<close>, their sum is rounded to the double \<open>t\<close>, the score is
  \<open>max 0 (min 1 t)\<close>, and it differs from the exact rational
  \<open>max 0 (min 1 (base + offset / 100))\<close> by at most three roundings of size
  \<open>1 / 2 ^ 53\<close>. Each score is a finite number between 0 and 1.
\<close>

theorem getMockPsiResponse_spec:
  "seedOf url = length url mod 20 \<and> seedOf url < 20
   \<and> (\<forall>(c, base) \<in> set [(''performance'', 72 / 100), (''accessibility'', 88 / 100),
                             (''best-practices'', 86 / 100), (''seo'', 84 / 100)].
         \<exists>b s t. fl base = Finite b
                \<and> fl (of_nat (seedOf url) / 100) = Finite s
                \<and> fl (b + s) = Finite t
                \<and> categoryScore (optGet (getMockPsiResponse url) (str ''lighthouseResult'')) c
                    = JNum (Finite (max 0 (min 1 t)))
                \<and> \<bar>max 0 (min 1 t) - max 0 (min 1 (base + of_nat (seedOf url) / 100))\<bar>
                    \<le> 3 / 2 ^ 53)
   \<and> (\<forall>c \<in> set [''performance'', ''accessibility'', ''best-practices'', ''seo''].
         \<exists>r. categoryScore (optGet (getMockPsiResponse url) (str ''lighthouseResult'')) c
                = JNum (Finite r) \<and> 0 \<le> r \<and> r \<le> 1)
   \<and> (length url' mod 20 = length url mod 20 \<longrightarrow>
        getMockPsiResponse url' = getMockPsiResponse url)"
proof -
  let ?lh = "optGet (getMockPsiResponse url) (str ''lighthouseResult'')"
  have seed: "seedOf url = length url mod 20" "seedOf url < 20"
    by (simp_all add: seedOf_def)
  have one: "\<exists>b s t. fl base = Finite b
                \<and> fl (of_nat (seedOf url) / 100) = Finite s
                \<and> fl (b + s) = Finite t
                \<and> categoryScore ?lh c = JNum (Finite (max 0 (min 1 t)))
                \<and> \<bar>max 0 (min 1 t) - max 0 (min 1 (base + of_nat (seedOf url) / 100))\<bar>
                    \<le> 3 / 2 ^ 53"
    if score: "categoryScore ?lh c = JNum (score01 (seedOf url) (fl base))"
      and base: "0 \<le> base" "base \<le> 9 / 10" for c and base :: rat
    using score01_formula [OF base seed(2)] by (auto simp add: score)
  have perf: "categoryScore ?lh ''performance'' = JNum (score01 (seedOf url) (fl (72 / 100)))"
    using mock_category [of "''performance''" url] by simp
  have a11y: "categoryScore ?lh ''accessibility'' = JNum (score01 (seedOf url) (fl (88 / 100)))"
    using mock_category [of "''accessibility''" url] by simp
  have bp: "categoryScore ?lh ''best-practices'' = JNum (score01 (seedOf url) (fl (86 / 100)))"
    using mock_category [of "''best-practices''" url] by simp
  have seo: "categoryScore ?lh ''seo'' = JNum (score01 (seedOf url) (fl (84 / 100)))"
    using mock_category [of "''seo''" url] by simp
  have formula: "\<forall>(c, base) \<in> set [(''performance'', 72 / 100), (''accessibility'', 88 / 100),
                             (''best-practices'', 86 / 100), (''seo'', 84 / 100)].
         \<exists>b s t. fl base = Finite b
                \<and> fl (of_nat (seedOf url) / 100) = Finite s
                \<and> fl (b + s) = Finite t
                \<and> categoryScore ?lh c = JNum (Finite (max 0 (min 1 t)))
                \<and> \<bar>max 0 (min 1 t) - max 0 (min 1 (base + of_nat (seedOf url) / 100))\<bar>
                    \<le> 3 / 2 ^ 53"
    using one [OF perf] one [OF a11y] one [OF bp] one [OF seo] by simp
  have range: "\<forall>c \<in> set [''performance'', ''accessibility'', ''best-practices'', ''seo''].
         \<exists>r. categoryScore ?lh c = JNum (Finite r) \<and> 0 \<le> r \<and> r \<le> 1"
  proof
    fix c assume c: "c \<in> set [''performance'', ''accessibility'', ''best-practices'', ''seo'']"
    define b :: rat where "b = (if c = ''performance'' then 72 / 100
        else if c = ''accessibility'' then 88 / 100
        else if c = ''best-practices'' then 86 / 100 else 84 / 100)"
    have "0 \<le> b" by (simp add: b_def)
    from score01_range [OF this, of "seedOf url"] mock_category [OF c, of url]
    show "\<exists>r. categoryScore ?lh c = JNum (Finite r) \<and> 0 \<le> r \<and> r \<le> 1"
      unfolding b_def by auto
  qed
  have same: "length url' mod 20 = length url mod 20 \<longrightarrow>
        getMockPsiResponse url' = getMockPsiResponse url"
    by (simp add: getMockPsiResponse_def seedOf_def)
  show ?thesis by (intro conjI seed formula range same)
qed

theorem getMockPsiResponse_spec_witness:
  "seedOf (str ''https://www.example.com/a'') = 5
   \<and> categoryScore (optGet (getMockPsiResponse (str ''https://www.example.com/a'')) (str ''lighthouseResult''))
        ''performance'' = JNum (Finite (1733885856537641 / 2251799813685248))
   \<and> seedOf (str ''https://www.example.com/landing-page-01'') = 19
   \<and> categoryScore (optGet (getMockPsiResponse (str ''https://www.example.com/landing-page-01''))
        (str ''lighthouseResult'')) ''accessibility'' = JNum (Finite 1)
   \<and> seedOf (str ''https://example.com/'') = 0
   \<and> categoryScore (optGet (getMockPsiResponse (str ''https://example.com/'')) (str ''lighthouseResult''))
        ''performance'' = JNum (Finite (3242591731706757 / 4503599627370496))
   \<and> (\<exists>r. categoryScore (optGet (getMockPsiResponse (str ''https://example.com/'')) (str ''lighthouseResult''))
          ''seo'' = JNum (Finite r) \<and> 0 \<le> r \<and> r \<le> 1)
   \<and> getMockPsiResponse (str ''https://example.org/'') = getMockPsiResponse (str ''https://example.com/'')"
proof -
  let ?a = "str ''https://www.example.com/a''"
  let ?l = "str ''https://www.example.com/landing-page-01''"
  let ?com = "str ''https://example.com/''" and ?org = "str ''https://example.org/''"
  let ?bases = "[(''performance'', 72 / 100 :: rat), (''accessibility'', 88 / 100),
                 (''best-practices'', 86 / 100), (''seo'', 84 / 100)]"
  have perf_mem: "(''performance'', 72 / 100 :: rat) \<in> set ?bases"
    and a11y_mem: "(''accessibility'', 88 / 100 :: rat) \<in> set ?bases"
    by simp_all
  note at_a = getMockPsiResponse_spec [of ?a ?a]
  note at_l = getMockPsiResponse_spec [of ?l ?l]
  note at_com = getMockPsiResponse_spec [of ?com ?org]
  have seed_a: "seedOf ?a = 5"
    using at_a [THEN conjunct1] by (simp add: length_example_a)
  have seed_l: "seedOf ?l = 19"
    using at_l [THEN conjunct1] by (simp add: length_example_landing)
  have seed_com: "seedOf ?com = 0"
    using at_com [THEN conjunct1] by (simp add: length_example_com)
  have perf_a: "categoryScore (optGet (getMockPsiResponse ?a) (str ''lighthouseResult'')) ''performance''
       = JNum (Finite (1733885856537641 / 2251799813685248))"
  proof -
    from at_a [THEN conjunct2, THEN conjunct2, THEN conjunct1, THEN bspec, OF perf_mem]
    obtain b s t where b: "fl (72 / 100) = Finite b"
      and s: "fl (of_nat (seedOf ?a) / 100) = Finite s"
      and t: "fl (b + s) = Finite t"
      and score: "categoryScore (optGet (getMockPsiResponse ?a) (str ''lighthouseResult'')) ''performance''
                    = JNum (Finite (max 0 (min 1 t)))"
      unfolding split_conv by blast
    from b have b': "b = 3242591731706757 / 4503599627370496"
      unfolding fl_0_72 by simp
    from s have s': "s = 3602879701896397 / 72057594037927936"
      unfolding seed_a fl_0_05 by simp
    from t have "t = 1733885856537641 / 2251799813685248"
      unfolding b' s' fl_sum_0_72_0_05 by simp
    with score show ?thesis by simp
  qed
  have a11y_l: "categoryScore (optGet (getMockPsiResponse ?l) (str ''lighthouseResult'')) ''accessibility''
       = JNum (Finite 1)"
  proof -
    from at_l [THEN conjunct2, THEN conjunct2, THEN conjunct1, THEN bspec, OF a11y_mem]
    obtain b s t where b: "fl (88 / 100) = Finite b"
      and s: "fl (of_nat (seedOf ?l) / 100) = Finite s"
      and t: "fl (b + s) = Finite t"
      and score: "categoryScore (optGet (getMockPsiResponse ?l) (str ''lighthouseResult'')) ''accessibility''
                    = JNum (Finite (max 0 (min 1 t)))"
      unfolding split_conv by blast
    from b have b': "b = 7926335344172073 / 9007199254740992"
      unfolding fl_0_88 by simp
    from s have s': "s = 3422735716801577 / 18014398509481984"
      unfolding seed_l fl_0_19 by simp
    from t have "t = 4818851601286431 / 4503599627370496"
      unfolding b' s' fl_sum_0_88_0_19 by simp
    with score show ?thesis by simp
  qed
  have perf_com: "categoryScore (optGet (getMockPsiResponse ?com) (str ''lighthouseResult'')) ''performance''
       = JNum (Finite (3242591731706757 / 4503599627370496))"
  proof -
    from at_com [THEN conjunct2, THEN conjunct2, THEN conjunct1, THEN bspec, OF perf_mem]
    obtain b s t where b: "fl (72 / 100) = Finite b"
      and s: "fl (of_nat (seedOf ?com) / 100) = Finite s"
      and t: "fl (b + s) = Finite t"
      and score: "categoryScore (optGet (getMockPsiResponse ?com) (str ''lighthouseResult'')) ''performance''
                    = JNum (Finite (max 0 (min 1 t)))"
      unfolding split_conv by blast
    from b have b': "b = 3242591731706757 / 4503599627370496"
      unfolding fl_0_72 by simp
    from s have s': "s = 0"
      unfolding seed_com fl_0_00 by simp
    from t have "t = 3242591731706757 / 4503599627370496"
      unfolding b' s' fl_sum_0_72_0_00 by simp
    with score show ?thesis by simp
  qed
  have seo: "\<exists>r. categoryScore (optGet (getMockPsiResponse ?com) (str ''lighthouseResult'')) ''seo''
                = JNum (Finite r) \<and> 0 \<le> r \<and> r \<le> 1"
    using at_com [THEN conjunct2, THEN conjunct2, THEN conjunct2, THEN conjunct1]
    by simp
  have same: "getMockPsiResponse ?org = getMockPsiResponse ?com"
    using at_com [THEN conjunct2, THEN conjunct2, THEN conjunct2, THEN conjunct2]
    by (simp add: length_example_com length_example_org)
  from seed_a perf_a seed_l a11y_l seed_com perf_com seo same show ?thesis by (intro conjI)
qed

section \<open>The error shown\<close>

lemma isWhiteSpace_simps [simp]:
  "isWhiteSpace 0x20" "\<not> isWhiteSpace 0x3C" "\<not> isWhiteSpace 0x3E"
  by (simp_all add: isWhiteSpace_def)

lemma hasTag_iff: "hasTag s \<longleftrightarrow> (\<exists>xs ys. s = xs @ 0x3C # ys \<and> 0x3E \<in> set ys)"
proof (induction s)
  case Nil
  show ?case by simp
next
  case (Cons c cs)
  show ?case
  proof
    assume "hasTag (c # cs)"
    then consider "c = 0x3C \<and> 0x3E \<in> set cs" | "hasTag cs" by auto
    then show "\<exists>xs ys. c # cs = xs @ 0x3C # ys \<and> 0x3E \<in> set ys"
    proof cases
      case 1
      then have "c # cs = [] @ 0x3C # cs \<and> 0x3E \<in> set cs" by simp
      then show ?thesis by blast
    next
      case 2
      with Cons.IH obtain xs ys where "cs = xs @ 0x3C # ys" "0x3E \<in> set ys" by auto
      then have "c # cs = (c # xs) @ 0x3C # ys \<and> 0x3E \<in> set ys" by simp
      then show ?thesis by blast
    qed
  next
    assume "\<exists>xs ys. c # cs = xs @ 0x3C # ys \<and> 0x3E \<in> set ys"
    then obtain xs ys where split: "c # cs = xs @ 0x3C # ys" and gt: "0x3E \<in> set ys" by auto
    show "hasTag (c # cs)"
    proof (cases xs)
      case Nil
      with split gt show ?thesis by simp
    next
      case (Cons x xs')
      with split have "cs = xs' @ 0x3C # ys" by simp
      with gt Cons.IH show ?thesis by auto
    qed
  qed
qed

lemma hasTag_append_left: "hasTag ys \<Longrightarrow> hasTag (xs @ ys)"
  by (induction xs) simp_all

lemma hasTag_append_right: "hasTag xs \<Longrightarrow> hasTag (xs @ ys)"
  by (induction xs) auto

lemma hasTag_take: "hasTag (take n s) \<Longrightarrow> hasTag s"
  using hasTag_append_right [of "take n s" "drop n s"] by simp

lemma hasTag_dropWhile: "hasTag (dropWhile P s) \<Longrightarrow> hasTag s"
  using hasTag_append_left [of "dropWhile P s" "takeWhile P s"] by simp

lemma rev_dropWhile_rev: "rev (dropWhile P (rev s)) @ rev (takeWhile P (rev s)) = s"
proof -
  have "rev (takeWhile P (rev s) @ dropWhile P (rev s)) = s" by simp
  then show ?thesis by (simp only: rev_append)
qed

lemma hasTag_trim: "hasTag (trim s) \<Longrightarrow> hasTag s"
proof -
  assume "hasTag (trim s)"
  then have "hasTag (rev (dropWhile isWhiteSpace (rev (dropWhile isWhiteSpace s)))
                     @ rev (takeWhile isWhiteSpace (rev (dropWhile isWhiteSpace s))))"
    unfolding trim_def by (rule hasTag_append_right)
  then have "hasTag (dropWhile isWhiteSpace s)" by (simp only: rev_dropWhile_rev)
  then show "hasTag s" by (rule hasTag_dropWhile)
qed

lemma set_tl_subset: "set (tl xs) \<subseteq> set xs"
  by (cases xs) auto

lemma set_stripTags: "set (stripTags s) \<subseteq> set s"
proof (induction s rule: stripTags.induct)
  case 1
  show ?case by simp
next
  case (2 c cs)
  show ?case
  proof (cases "c = 0x3C \<and> 0x3E \<in> set cs")
    case True
    have "set (tl (dropWhile (\<lambda>d. d \<noteq> 0x3E) cs)) \<subseteq> set (dropWhile (\<lambda>d. d \<noteq> 0x3E) cs)"
      by (rule set_tl_subset)
    then have "set (tl (dropWhile (\<lambda>d. d \<noteq> 0x3E) cs)) \<subseteq> set cs"
      by (auto dest: set_dropWhileD)
    with 2(1) [OF True] True show ?thesis by auto
  next
    case False
    with 2(2) [OF False] show ?thesis by auto
  qed
qed

lemma stripTags_no_tag: "\<not> hasTag (stripTags s)"
proof (induction s rule: stripTags.induct)
  case 1
  show ?case by simp
next
  case (2 c cs)
  show ?case
  proof (cases "c = 0x3C \<and> 0x3E \<in> set cs")
    case True
    with 2(1) [OF True] show ?thesis by simp
  next
    case False
    have "0x3E \<in> set (stripTags cs) \<Longrightarrow> 0x3E \<in> set cs"
      using set_stripTags [of cs] by blast
    with False 2(2) [OF False] show ?thesis by auto
  qed
qed

lemma set_collapseSpace: "x \<in> set (collapseSpace s) \<Longrightarrow> x = 0x20 \<or> x \<in> set s"
proof (induction s rule: collapseSpace.induct)
  case 1
  then show ?case by simp
next
  case (2 c cs)
  show ?case
  proof (cases "isWhiteSpace c")
    case True
    with "2.IH"(1) [OF True] "2.prems" show ?thesis
      by (auto dest: set_dropWhileD)
  next
    case False
    with "2.IH"(2) [OF False] "2.prems" show ?thesis by auto
  qed
qed

lemma hasTag_collapseSpace: "hasTag (collapseSpace s) \<Longrightarrow> hasTag s"
proof (induction s rule: collapseSpace.induct)
  case 1
  then show ?case by simp
next
  case (2 c cs)
  show ?case
  proof (cases "isWhiteSpace c")
    case True
    with "2.prems" have "hasTag (collapseSpace (dropWhile isWhiteSpace cs))" by simp
    with "2.IH"(1) [OF True] have "hasTag (dropWhile isWhiteSpace cs)" by simp
    then have "hasTag cs" by (rule hasTag_dropWhile)
    then show ?thesis by simp
  next
    case False
    with "2.prems" consider "c = 0x3C \<and> 0x3E \<in> set (collapseSpace cs)" | "hasTag (collapseSpace cs)"
      by auto
    then show ?thesis
    proof cases
      case 1
      with set_collapseSpace [of "0x3E" cs] show ?thesis by simp
    next
      case 2
      with "2.IH"(2) [OF False] show ?thesis by simp
    qed
  qed
qed

lemma sanitize_no_tag: "\<not> hasTag (sanitize raw)"
proof
  assume "hasTag (sanitize raw)"
  then have "hasTag (trim (collapseSpace (stripTags raw)))"
    unfolding sanitize_def by (rule hasTag_take)
  then have "hasTag (collapseSpace (stripTags raw))" by (rule hasTag_trim)
  then have "hasTag (stripTags raw)" by (rule hasTag_collapseSpace)
  with stripTags_no_tag show False by blast
qed

lemma sanitize_length: "length (sanitize raw) \<le> 220"
  by (simp add: sanitize_def)

lemma singleSpaced_Cons:
  "singleSpaced (c # r) \<longleftrightarrow>
     (isWhiteSpace c \<longrightarrow> c = 0x20 \<and> (r = [] \<or> \<not> isWhiteSpace (hd r))) \<and> singleSpaced r"
  by (cases r) auto

lemma collapseSpace_head:
  "collapseSpace t \<noteq> [] \<Longrightarrow> isWhiteSpace (hd (collapseSpace t)) \<Longrightarrow> t \<noteq> [] \<and> isWhiteSpace (hd t)"
  by (cases t) (auto split: if_splits)

lemma dropWhile_head: "dropWhile P t \<noteq> [] \<Longrightarrow> \<not> P (hd (dropWhile P t))"
  by (rule hd_dropWhile)

lemma singleSpaced_collapseSpace: "singleSpaced (collapseSpace s)"
proof (induction s rule: collapseSpace.induct)
  case 1
  show ?case by simp
next
  case (2 c cs)
  show ?case
  proof (cases "isWhiteSpace c")
    case True
    let ?r = "collapseSpace (dropWhile isWhiteSpace cs)"
    have "?r = [] \<or> \<not> isWhiteSpace (hd ?r)"
      using collapseSpace_head [of "dropWhile isWhiteSpace cs"]
            dropWhile_head [of isWhiteSpace cs]
      by blast
    with True "2.IH"(1) [OF True] show ?thesis
      by (simp add: singleSpaced_Cons)
  next
    case False
    with "2.IH"(2) [OF False] show ?thesis
      by (simp add: singleSpaced_Cons)
  qed
qed

lemma singleSpaced_append: "singleSpaced (xs @ ys) \<Longrightarrow> singleSpaced xs \<and> singleSpaced ys"
proof (induction xs)
  case Nil
  then show ?case by simp
next
  case (Cons x xs)
  from Cons.prems have step: "singleSpaced (xs @ ys)"
    and head: "isWhiteSpace x \<longrightarrow> x = 0x20 \<and> (xs @ ys = [] \<or> \<not> isWhiteSpace (hd (xs @ ys)))"
    by (simp_all add: singleSpaced_Cons)
  from Cons.IH [OF step] have xs: "singleSpaced xs" and ys: "singleSpaced ys" by simp_all
  have "isWhiteSpace x \<longrightarrow> x = 0x20 \<and> (xs = [] \<or> \<not> isWhiteSpace (hd xs))"
  proof (cases xs)
    case Nil
    with head show ?thesis by simp
  next
    case (Cons z zs)
    with head show ?thesis by simp
  qed
  with xs ys show ?case by (simp only: singleSpaced_Cons)
qed

lemma singleSpaced_take: "singleSpaced s \<Longrightarrow> singleSpaced (take n s)"
  using singleSpaced_append [of "take n s" "drop n s"] by simp

lemma singleSpaced_dropWhile: "singleSpaced s \<Longrightarrow> singleSpaced (dropWhile P s)"
  using singleSpaced_append [of "takeWhile P s" "dropWhile P s"] by simp

lemma trim_prefix: "trim s @ rev (takeWhile isWhiteSpace (rev (dropWhile isWhiteSpace s))) = dropWhile isWhiteSpace s"
  unfolding trim_def by (rule rev_dropWhile_rev)

lemma singleSpaced_trim: "singleSpaced s \<Longrightarrow> singleSpaced (trim s)"
proof -
  assume "singleSpaced s"
  then have "singleSpaced (dropWhile isWhiteSpace s)" by (rule singleSpaced_dropWhile)
  then have "singleSpaced (trim s @ rev (takeWhile isWhiteSpace (rev (dropWhile isWhiteSpace s))))"
    by (simp only: trim_prefix)
  then show ?thesis by (rule singleSpaced_append [THEN conjunct1])
qed

lemma sanitize_singleSpaced: "singleSpaced (sanitize raw)"
  unfolding sanitize_def
  by (intro singleSpaced_take singleSpaced_trim singleSpaced_collapseSpace)

lemma trim_head: "trim s \<noteq> [] \<Longrightarrow> \<not> isWhiteSpace (hd (trim s))"
proof -
  assume ne: "trim s \<noteq> []"
  have "hd (trim s) = hd (trim s @ rev (takeWhile isWhiteSpace (rev (dropWhile isWhiteSpace s))))"
    using ne by simp
  also have "\<dots> = hd (dropWhile isWhiteSpace s)" by (simp only: trim_prefix)
  finally have eq: "hd (trim s) = hd (dropWhile isWhiteSpace s)" .
  have "dropWhile isWhiteSpace s \<noteq> []"
  proof
    assume "dropWhile isWhiteSpace s = []"
    with trim_prefix [of s] have "trim s = []" by simp
    with ne show False by simp
  qed
  then have "\<not> isWhiteSpace (hd (dropWhile isWhiteSpace s))" by (rule dropWhile_head)
  with eq show ?thesis by simp
qed

lemma sanitize_head: "sanitize raw \<noteq> [] \<Longrightarrow> \<not> isWhiteSpace (hd (sanitize raw))"
proof -
  assume ne: "sanitize raw \<noteq> []"
  then have t: "trim (collapseSpace (stripTags raw)) \<noteq> []" by (auto simp add: sanitize_def)
  have "hd (sanitize raw) = hd (trim (collapseSpace (stripTags raw)))"
    using t by (simp add: sanitize_def hd_take)
  with trim_head [OF t] show ?thesis by simp
qed

lemma trim_all_space: "(\<forall>c \<in> set s. isWhiteSpace c) \<Longrightarrow> trim s = []"
proof -
  assume "\<forall>c \<in> set s. isWhiteSpace c"
  then have "dropWhile isWhiteSpace s = []" by (simp add: dropWhile_eq_Nil_conv)
  then show ?thesis unfolding trim_def by (simp only: rev.simps dropWhile.simps)
qed

lemma trim_id: "s \<noteq> [] \<Longrightarrow> \<not> isWhiteSpace (hd s) \<Longrightarrow> \<not> isWhiteSpace (last s) \<Longrightarrow> trim s = s"
proof -
  assume ne: "s \<noteq> []" and h: "\<not> isWhiteSpace (hd s)" and l: "\<not> isWhiteSpace (last s)"
  from ne h have "dropWhile isWhiteSpace s = s" by (cases s) simp_all
  moreover from ne l have "dropWhile isWhiteSpace (rev s) = rev s"
    by (cases s rule: rev_cases) simp_all
  ultimately show ?thesis by (simp add: trim_def)
qed

section \<open>The submit handler\<close>

lemma setStatus_fields [simp]:
  "statusText (setStatus msg type pg) = msg"
  "statusClass (setStatus msg type pg) = trim (str ''status '' @ type)"
  "runDisabled (setStatus msg type pg) = runDisabled pg"
  "runText (setStatus msg type pg) = runText pg"
  "resultsHidden (setStatus msg type pg) = resultsHidden pg"
  "oppsItems (setStatus msg type pg) = oppsItems pg"
  by (simp_all add: setStatus_def)

lemma setLoading_fields [simp]:
  "runDisabled (setLoading b pg) = b"
  "runText (setLoading b pg) = (if b then str ''Running...'' else str ''Run Report'')"
  "statusText (setLoading b pg) = statusText pg"
  "statusClass (setLoading b pg) = statusClass pg"
  "resultsHidden (setLoading b pg) = resultsHidden pg"
  "oppsItems (setLoading b pg) = oppsItems pg"
  by (simp_all add: setLoading_def)

lemma render_fields [simp]:
  "runDisabled (render cfg data pg) = runDisabled pg"
  "runText (render cfg data pg) = runText pg"
  "statusText (render cfg data pg) = statusText pg"
  "statusClass (render cfg data pg) = statusClass pg"
  by (simp_all add: render_def Let_def)

lemma rejected_fields [simp]:
  "runDisabled (rejected pg) = runDisabled pg"
  "runText (rejected pg) = runText pg"
  by (simp_all add: rejected_def)

lemma status_bad: "trim (str ''status '' @ str ''bad'') = str ''status bad''"
  by (simp add: trim_def str_def isWhiteSpace_def)


lemma obtain_report_outcome:
  "snd (snd (obtain_report cfg pf u pg)) = snd (snd (obtain_report cfg pf u pg'))"
  by (simp add: obtain_report_def Let_def split: fetched.splits sum.splits)



lemma submit_accepted:
  assumes "normalizeUrl (parseUrl pf) input = Some u" and "u \<noteq> []"
    and "obtain_report cfg pf u
           (setStatus (str ''Running mobile Lighthouse audit'' @ [0x2026]) []
              (setLoading True (pg0\<lparr>resultsHidden := True, oppsItems := []\<rparr>)))
         = (events, pg3, outcome)"
  shows "submit cfg pf input pg0 =
           (setLoading False
              (case outcome of
                 Inr data \<Rightarrow> render cfg data pg3
               | Inl message \<Rightarrow>
                   setStatus (cross @ str '' '' @ sanitize (messageOf message)) (str ''bad'') pg3),
            events)"
  using assms by (simp add: submit_def Let_def)



lemma normalizeUrl_example:
  "normalizeUrl URL_known (str ''example.com'') = Some (str ''https://example.com/'')"
proof -
  have "trim (str ''example.com'') = str ''example.com''"
    by (simp add: trim_def str_def isWhiteSpace_def)
  moreover have "\<not> startsWith (str ''example.com'') (str ''http://'')"
    "\<not> startsWith (str ''example.com'') (str ''https://'')"
    by (simp_all add: startsWith_def str_def)
  moreover have "str ''https://'' @ str ''example.com'' = str ''https://example.com''"
    by (simp add: str_def)
  ultimately show ?thesis
    by (simp add: normalizeUrl_def URL_known_def)
qed



lemma sanitize_Not_Found: "sanitize (str ''Not Found'') = str ''Not Found''"
  by (simp add: sanitize_def trim_def str_def isWhiteSpace_def)

lemma sanitize_page:
  "sanitize (str ''<html><h1>404</h1>  <p>Not   Found</p></html>'') = str ''404 Not Found''"
  by (simp add: sanitize_def trim_def str_def isWhiteSpace_def)

text \<open>
  C7. Whatever error the \<open>try\<close> block of the submit handler of app.js throws, the
  status line becomes a cross, a space and the sanitised message of the error, with the
  class \<open>status bad\<close>. For an answer that is not a success, the message is the text of
  the body, or \<open>Request failed:\<close> and the status when the body is empty. The sanitised
  message is the raw one with its tags removed, its runs of white space made single
  spaces, trimmed and cut to 220 code units: it has at most 220 code units, no tag is
  left in it, its only white space are single spaces, and it does not start with one.
\<close>

theorem submit_failure_shown:
  "(normalizeUrl (parseUrl pf) input = Some u \<and> u \<noteq> []
      \<and> snd (snd (obtain_report cfg pf u pg)) = Inl message \<longrightarrow>
        statusText (fst (submit cfg pf input pg0)) = cross @ str '' '' @ sanitize (messageOf message)
        \<and> statusClass (fst (submit cfg pf input pg0)) = str ''status bad'')
   \<and> (MODE cfg \<noteq> str ''demo'' \<and> LIVE_ENDPOINT cfg \<noteq> []
        \<and> fetch pf (LIVE_ENDPOINT cfg @ str ''?url='' @ encodeURIComponent pf u) = Responded res
        \<and> \<not> res_ok res \<and> res_text res = Inr errText \<longrightarrow>
        snd (snd (obtain_report cfg pf u pg)) =
          Inl (if errText \<noteq> [] then errText else str ''Request failed: '' @ digits (res_status res)))
   \<and> sanitize raw = take 220 (trim (collapseSpace (stripTags raw)))
   \<and> length (sanitize raw) \<le> 220
   \<and> \<not> hasTag (sanitize raw)
   \<and> singleSpaced (sanitize raw)
   \<and> (sanitize raw \<noteq> [] \<longrightarrow> \<not> isWhiteSpace (hd (sanitize raw)))"
proof -
  have shown: "normalizeUrl (parseUrl pf) input = Some u \<and> u \<noteq> []
      \<and> snd (snd (obtain_report cfg pf u pg)) = Inl message \<longrightarrow>
        statusText (fst (submit cfg pf input pg0)) = cross @ str '' '' @ sanitize (messageOf message)
        \<and> statusClass (fst (submit cfg pf input pg0)) = str ''status bad''"
  proof
    assume a: "normalizeUrl (parseUrl pf) input = Some u \<and> u \<noteq> []
      \<and> snd (snd (obtain_report cfg pf u pg)) = Inl message"
    let ?pg2 = "setStatus (str ''Running mobile Lighthouse audit'' @ [0x2026]) []
                  (setLoading True (pg0\<lparr>resultsHidden := True, oppsItems := []\<rparr>))"
    obtain events pg3 outcome where run: "obtain_report cfg pf u ?pg2 = (events, pg3, outcome)"
      by (cases "obtain_report cfg pf u ?pg2") auto
    have "outcome = snd (snd (obtain_report cfg pf u ?pg2))" by (simp add: run)
    also have "\<dots> = snd (snd (obtain_report cfg pf u pg))" by (rule obtain_report_outcome)
    finally have outcome: "outcome = Inl message" using a by simp
    from a have u: "normalizeUrl (parseUrl pf) input = Some u" "u \<noteq> []" by simp_all
    show "statusText (fst (submit cfg pf input pg0)) = cross @ str '' '' @ sanitize (messageOf message)
        \<and> statusClass (fst (submit cfg pf input pg0)) = str ''status bad''"
      by (simp add: submit_accepted [OF u run] outcome status_bad)
  qed
  have live: "MODE cfg \<noteq> str ''demo'' \<and> LIVE_ENDPOINT cfg \<noteq> []
        \<and> fetch pf (LIVE_ENDPOINT cfg @ str ''?url='' @ encodeURIComponent pf u) = Responded res
        \<and> \<not> res_ok res \<and> res_text res = Inr errText \<longrightarrow>
        snd (snd (obtain_report cfg pf u pg)) =
          Inl (if errText \<noteq> [] then errText else str ''Request failed: '' @ digits (res_status res))"
    by (simp add: obtain_report_def Let_def)
  have composed: "sanitize raw = take 220 (trim (collapseSpace (stripTags raw)))"
    by (rule sanitize_def)
  have head: "sanitize raw \<noteq> [] \<longrightarrow> \<not> isWhiteSpace (hd (sanitize raw))"
    using sanitize_head by blast
  show ?thesis
    by (intro conjI shown live composed sanitize_length sanitize_no_tag sanitize_singleSpaced head)
qed

theorem submit_failure_shown_witness:
  "statusText (fst (submit live notFound (str ''example.com'') blank)) = cross @ str '' Not Found''
   \<and> statusClass (fst (submit live notFound (str ''example.com'') blank)) = str ''status bad''
   \<and> \<not> hasTag (sanitize (str ''<html><h1>404</h1>  <p>Not   Found</p></html>''))
   \<and> sanitize (str ''<html><h1>404</h1>  <p>Not   Found</p></html>'') = str ''404 Not Found''"
proof -
  let ?u = "str ''https://example.com/''"
  have some: "normalizeUrl (parseUrl notFound) (str ''example.com'') = Some ?u \<and> ?u \<noteq> []"
    by (simp add: notFound_def normalizeUrl_example)
  let ?res = "\<lparr>res_status = 404, res_text = Inr (str ''Not Found''),
                res_json = Inl (str ''Unexpected token N in JSON at position 0'')\<rparr>"
  note spec = submit_failure_shown
    [of notFound "str ''example.com''" ?u live blank "str ''Not Found''" blank ?res
        "str ''Not Found''" "str ''<html><h1>404</h1>  <p>Not   Found</p></html>''"]
  have "MODE live \<noteq> str ''demo'' \<and> LIVE_ENDPOINT live \<noteq> []
        \<and> fetch notFound (LIVE_ENDPOINT live @ str ''?url='' @ encodeURIComponent notFound ?u)
            = Responded ?res
        \<and> \<not> res_ok ?res \<and> res_text ?res = Inr (str ''Not Found'')"
    by (simp add: live_def notFound_def res_ok_def)
  from mp [OF spec [THEN conjunct2, THEN conjunct1] this]
  have thrown: "snd (snd (obtain_report live notFound ?u blank)) = Inl (str ''Not Found'')"
    by simp
  from mp [OF spec [THEN conjunct1]] some thrown
  have "statusText (fst (submit live notFound (str ''example.com'') blank))
          = cross @ str '' '' @ sanitize (messageOf (str ''Not Found''))"
    and cls: "statusClass (fst (submit live notFound (str ''example.com'') blank)) = str ''status bad''"
    by simp_all
  moreover have "str '' '' @ sanitize (messageOf (str ''Not Found'')) = str '' Not Found''"
    by (simp add: messageOf_def sanitize_Not_Found str_append [symmetric])
  ultimately have line: "statusText (fst (submit live notFound (str ''example.com'') blank))
          = cross @ str '' Not Found''"
    by simp
  note tag = spec [THEN conjunct2, THEN conjunct2, THEN conjunct2, THEN conjunct2, THEN conjunct1]
  from line cls tag sanitize_page show ?thesis by (intro conjI)
qed

text \<open>
  The live-only copy of the client shows the message of an error as it is: what app.js
  removes stays in its status line.
\<close>

lemma submit_liveOnly_unsanitised:
  assumes "normalizeUrl (parseUrl pf) input = Some u" and "u \<noteq> []"
    and "fetch pf (str ''/.netlify/functions/psi?url='' @ encodeURIComponent pf u) = Rejected message"
  shows "statusText (fst (submit_liveOnly pf input pg0)) = cross @ str '' '' @ messageOf message"
  using assms by (simp add: submit_liveOnly_def Let_def)

section \<open>Core Web Vitals\<close>














section \<open>Normalising the address\<close>

lemma trim_eq_Nil_iff: "trim s = [] \<longleftrightarrow> (\<forall>c \<in> set s. isWhiteSpace c)"
proof
  assume "trim s = []"
  then have "dropWhile isWhiteSpace (rev (dropWhile isWhiteSpace s)) = []"
    by (simp add: trim_def)
  then have "\<forall>c \<in> set (rev (dropWhile isWhiteSpace s)). isWhiteSpace c"
    by (simp only: dropWhile_eq_Nil_conv)
  then have all: "\<forall>c \<in> set (dropWhile isWhiteSpace s). isWhiteSpace c" by simp
  have "dropWhile isWhiteSpace s = []"
  proof (rule ccontr)
    assume ne: "dropWhile isWhiteSpace s \<noteq> []"
    then have "\<not> isWhiteSpace (hd (dropWhile isWhiteSpace s))" by (rule dropWhile_head)
    moreover have "hd (dropWhile isWhiteSpace s) \<in> set (dropWhile isWhiteSpace s)"
      using ne by simp
    ultimately show False using all by blast
  qed
  then show "\<forall>c \<in> set s. isWhiteSpace c" by (simp only: dropWhile_eq_Nil_conv)
next
  assume "\<forall>c \<in> set s. isWhiteSpace c"
  then show "trim s = []" by (rule trim_all_space)
qed

lemma trim_last: "trim s \<noteq> [] \<Longrightarrow> \<not> isWhiteSpace (last (trim s))"
proof -
  assume ne: "trim s \<noteq> []"
  let ?r = "dropWhile isWhiteSpace (rev (dropWhile isWhiteSpace s))"
  from ne have r: "?r \<noteq> []" by (simp add: trim_def)
  have "last (trim s) = hd ?r" using r by (simp add: trim_def last_rev)
  with dropWhile_head [OF r] show ?thesis by simp
qed

lemma trim_decompose:
  "\<exists>a b. raw = a @ trim raw @ b \<and> (\<forall>c \<in> set a. isWhiteSpace c) \<and> (\<forall>c \<in> set b. isWhiteSpace c)"
proof -
  let ?a = "takeWhile isWhiteSpace raw"
  let ?b = "rev (takeWhile isWhiteSpace (rev (dropWhile isWhiteSpace raw)))"
  have "raw = ?a @ dropWhile isWhiteSpace raw" by simp
  also have "dropWhile isWhiteSpace raw = trim raw @ ?b" by (simp only: trim_prefix)
  finally have "raw = ?a @ trim raw @ ?b" .
  moreover have "\<forall>c \<in> set ?a. isWhiteSpace c" by (auto dest: set_takeWhileD)
  moreover have "\<forall>c \<in> set ?b. isWhiteSpace c" by (auto dest: set_takeWhileD)
  ultimately show ?thesis by blast
qed

lemma normalizeUrl_parsed:
  "normalizeUrl parse raw = Some y \<Longrightarrow>
     \<exists>w. parse w = Some y \<and> (startsWith w (str ''http://'') \<or> startsWith w (str ''https://''))"
proof -
  assume r: "normalizeUrl parse raw = Some y"
  have pre: "startsWith (str ''https://'' @ trim raw) (str ''https://'')"
    by (simp add: startsWith_def str_def)
  from r pre show ?thesis
    by (auto simp add: normalizeUrl_def Let_def split: if_splits)
qed

text \<open>
  C2, amended. \<open>normalizeUrl\<close> removes the white space around its input and rejects an
  input that is empty or all white space. Of any other input it hands the parser the
  trimmed input itself when that starts with \<open>http://\<close> or \<open>https://\<close>, and \<open>https://\<close>
  followed by the trimmed input otherwise; what it returns is what the parser returns,
  the serialisation of the parsed address when the parser accepts the string and the
  rejection when it refuses it. So every value returned is a serialisation made by the
  parser from a string that starts with one of the two schemes, never the raw input.
\<close>

theorem normalizeUrl_spec:
  "(\<exists>a b. raw = a @ trim raw @ b
          \<and> (\<forall>c \<in> set a. isWhiteSpace c) \<and> (\<forall>c \<in> set b. isWhiteSpace c)
          \<and> (trim raw \<noteq> [] \<longrightarrow>
               \<not> isWhiteSpace (hd (trim raw)) \<and> \<not> isWhiteSpace (last (trim raw))))
   \<and> ((\<forall>c \<in> set raw. isWhiteSpace c) \<longrightarrow> normalizeUrl parse raw = None)
   \<and> (\<not> (\<forall>c \<in> set raw. isWhiteSpace c)
        \<and> \<not> startsWith (trim raw) (str ''http://'') \<and> \<not> startsWith (trim raw) (str ''https://'')
        \<longrightarrow> normalizeUrl parse raw = parse (str ''https://'' @ trim raw))
   \<and> (\<not> (\<forall>c \<in> set raw. isWhiteSpace c)
        \<and> (startsWith (trim raw) (str ''http://'') \<or> startsWith (trim raw) (str ''https://''))
        \<longrightarrow> normalizeUrl parse raw = parse (trim raw))
   \<and> (normalizeUrl parse raw = Some y \<longrightarrow>
        (\<exists>w. parse w = Some y
             \<and> (startsWith w (str ''http://'') \<or> startsWith w (str ''https://''))))"
proof -
  have trimmed: "\<exists>a b. raw = a @ trim raw @ b
          \<and> (\<forall>c \<in> set a. isWhiteSpace c) \<and> (\<forall>c \<in> set b. isWhiteSpace c)
          \<and> (trim raw \<noteq> [] \<longrightarrow>
               \<not> isWhiteSpace (hd (trim raw)) \<and> \<not> isWhiteSpace (last (trim raw)))"
    using trim_decompose [of raw] trim_head [of raw] trim_last [of raw] by blast
  have empty: "(\<forall>c \<in> set raw. isWhiteSpace c) \<longrightarrow> normalizeUrl parse raw = None"
    by (simp add: normalizeUrl_def trim_eq_Nil_iff [symmetric])
  have bare: "\<not> (\<forall>c \<in> set raw. isWhiteSpace c)
        \<and> \<not> startsWith (trim raw) (str ''http://'') \<and> \<not> startsWith (trim raw) (str ''https://'')
        \<longrightarrow> normalizeUrl parse raw = parse (str ''https://'' @ trim raw)"
    by (simp add: normalizeUrl_def Let_def trim_eq_Nil_iff [symmetric])
  have schemed: "\<not> (\<forall>c \<in> set raw. isWhiteSpace c)
        \<and> (startsWith (trim raw) (str ''http://'') \<or> startsWith (trim raw) (str ''https://''))
        \<longrightarrow> normalizeUrl parse raw = parse (trim raw)"
    by (simp add: normalizeUrl_def Let_def trim_eq_Nil_iff [symmetric])
  have serial: "normalizeUrl parse raw = Some y \<longrightarrow>
        (\<exists>w. parse w = Some y
             \<and> (startsWith w (str ''http://'') \<or> startsWith w (str ''https://'')))"
    using normalizeUrl_parsed [of parse raw y] by blast
  show ?thesis
    by (intro conjI trimmed empty bare schemed serial)
qed


lemma trim_padded: "trim (str '' example.com '') = str ''example.com''"
  by (simp add: trim_def str_def isWhiteSpace_def)

lemma trim_a_b: "trim (str ''a b'') = str ''a b''"
  by (simp add: trim_def str_def isWhiteSpace_def)

lemma no_scheme:
  "\<not> startsWith (str ''example.com'') (str ''http://'')"
  "\<not> startsWith (str ''example.com'') (str ''https://'')"
  "\<not> startsWith (str ''a b'') (str ''http://'')"
  "\<not> startsWith (str ''a b'') (str ''https://'')"
  by (simp_all add: startsWith_def str_def)

theorem normalizeUrl_spec_witness:
  "normalizeUrl URL_known (str '' example.com '') = Some (str ''https://example.com/'')
   \<and> normalizeUrl URL_known (str ''   '') = None
   \<and> (\<exists>w. URL_known w = Some (str ''https://example.com/'')
          \<and> (startsWith w (str ''http://'') \<or> startsWith w (str ''https://'')))"
proof -
  note spec = normalizeUrl_spec [of "str '' example.com ''" URL_known "str ''https://example.com/''"]
  have some: "\<not> (\<forall>c \<in> set (str '' example.com ''). isWhiteSpace c)"
    by (simp add: str_def isWhiteSpace_def)
  have "\<not> (\<forall>c \<in> set (str '' example.com ''). isWhiteSpace c)
        \<and> \<not> startsWith (trim (str '' example.com '')) (str ''http://'')
        \<and> \<not> startsWith (trim (str '' example.com '')) (str ''https://'')"
    using some by (simp add: trim_padded no_scheme)
  from mp [OF spec [THEN conjunct2, THEN conjunct2, THEN conjunct1] this]
  have a: "normalizeUrl URL_known (str '' example.com '') = Some (str ''https://example.com/'')"
    by (simp add: trim_padded URL_known_def str_append [symmetric])
  have "\<forall>c \<in> set (str ''   ''). isWhiteSpace c"
    by (simp add: str_def isWhiteSpace_def)
  from mp [OF normalizeUrl_spec [of "str ''   ''" URL_known, THEN conjunct2, THEN conjunct1] this]
  have b: "normalizeUrl URL_known (str ''   '') = None" .
  from mp [OF spec [THEN conjunct2, THEN conjunct2, THEN conjunct2, THEN conjunct2] a]
  have c: "\<exists>w. URL_known w = Some (str ''https://example.com/'')
          \<and> (startsWith w (str ''http://'') \<or> startsWith w (str ''https://''))" .
  from a b c show ?thesis by (intro conjI)
qed

text \<open>
  The claim as it was stated says more: that every input that is not empty and has no
  scheme parses once \<open>https://\<close> is put before it. The input \<open>a b\<close> is trimmed to
  itself, has no scheme, and \<open>https://a b\<close> is refused by the parser, so the input is
  rejected.
\<close>

theorem normalizeUrl_rejects_counterexample:
  "trim (str ''a b'') = str ''a b''
   \<and> \<not> startsWith (str ''a b'') (str ''http://'')
   \<and> \<not> startsWith (str ''a b'') (str ''https://'')
   \<and> URL_known (str ''https://a b'') = None
   \<and> normalizeUrl URL_known (str ''a b'') = None"
  by (simp add: trim_a_b no_scheme normalizeUrl_def URL_known_def str_append [symmetric])

lemma URL_known_cases: "URL_known x = Some y \<Longrightarrow> y = str ''https://example.com/''"
  by (simp add: URL_known_def split: if_splits)

lemma trim_example: "trim (str ''https://example.com/'') = str ''https://example.com/''"
  by (simp add: trim_def str_def isWhiteSpace_def)

lemma startsWith_example: "startsWith (str ''https://example.com/'') (str ''https://'')"
  by (simp add: startsWith_def str_def)

text \<open>
  C10. On an input that it does not reject, \<open>normalizeUrl\<close> gives a value that it maps
  to itself. The parser is the platform's; three properties of it are used, each for
  strings that start with \<open>http://\<close> or \<open>https://\<close>: the serialisation of an address
  parses to itself, it starts with one of these two schemes, and it has no white space
  at either end.
\<close>

theorem normalizeUrl_idempotent:
  assumes canon: "\<And>x y. startsWith x (str ''http://'') \<or> startsWith x (str ''https://'') \<Longrightarrow>
                    parse x = Some y \<Longrightarrow> parse y = Some y"
    and scheme: "\<And>x y. startsWith x (str ''http://'') \<or> startsWith x (str ''https://'') \<Longrightarrow>
                    parse x = Some y \<Longrightarrow>
                    startsWith y (str ''http://'') \<or> startsWith y (str ''https://'')"
    and tidy: "\<And>x y. startsWith x (str ''http://'') \<or> startsWith x (str ''https://'') \<Longrightarrow>
                    parse x = Some y \<Longrightarrow> trim y = y"
    and result: "normalizeUrl parse s = Some y"
  shows "normalizeUrl parse y = Some y"
proof -
  from result obtain w where w: "parse w = Some y"
      "startsWith w (str ''http://'') \<or> startsWith w (str ''https://'')"
    using normalizeUrl_parsed [of parse s y] by blast
  from scheme [OF w(2) w(1)]
  have y: "startsWith y (str ''http://'') \<or> startsWith y (str ''https://'')" .
  then have ne: "y \<noteq> []" by (auto simp add: startsWith_def str_def)
  from tidy [OF w(2) w(1)] have t: "trim y = y" .
  from canon [OF w(2) w(1)] have "parse y = Some y" .
  with y ne t show ?thesis by (auto simp add: normalizeUrl_def Let_def)
qed

theorem normalizeUrl_idempotent_witness:
  "normalizeUrl URL_known (str ''example.com'') = Some (str ''https://example.com/'')
   \<and> normalizeUrl URL_known (str ''https://example.com/'') = Some (str ''https://example.com/'')"
proof -
  have first: "normalizeUrl URL_known (str ''example.com'') = Some (str ''https://example.com/'')"
    by (rule normalizeUrl_example)
  have "normalizeUrl URL_known (str ''https://example.com/'') = Some (str ''https://example.com/'')"
  proof (rule normalizeUrl_idempotent [OF _ _ _ first])
    fix x y assume "URL_known x = Some y"
    then have y: "y = str ''https://example.com/''" by (rule URL_known_cases)
    show "URL_known y = Some y" by (simp add: y URL_known_def)
    show "startsWith y (str ''http://'') \<or> startsWith y (str ''https://'')"
      by (simp add: y startsWith_example)
    show "trim y = y" by (simp add: y trim_example)
  qed
  with first show ?thesis ..
qed

section \<open>The proxy\<close>

text \<open>
  C5, amended. When the query has no \<open>url\<close> parameter, or an empty one, the handler
  replies with the status 400 and the body \<open>{ ok: false, error: "Missing ?url=" }\<close> and
  fetches nothing. When the parameter is there and not empty but the key is not set
  (or is empty), it replies with the status 500 and a body with \<open>ok: false\<close> and the
  error \<open>Server missing PSI_API_KEY env var\<close>, and fetches nothing, whatever the value
  of the parameter.
\<close>

theorem handler_guards:
  "(map_of searchParams (str ''url'') = None \<or> map_of searchParams (str ''url'') = Some [] \<longrightarrow>
      handler rt PSI_API_KEY searchParams = ([], missingUrl))
   \<and> status missingUrl = 400
   \<and> body missingUrl = JObj [(str ''ok'', JBool False), (str ''error'', JStr (str ''Missing ?url=''))]
   \<and> (map_of searchParams (str ''url'') = Some target \<and> target \<noteq> []
        \<and> (PSI_API_KEY = None \<or> PSI_API_KEY = Some []) \<longrightarrow>
      handler rt PSI_API_KEY searchParams = ([], missingKey))
   \<and> status missingKey = 500
   \<and> getProp (body missingKey) (str ''ok'') = JBool False
   \<and> getProp (body missingKey) (str ''error'') = JStr (str ''Server missing PSI_API_KEY env var'')"
  by (auto simp add: handler_def missingUrl_def missingKey_def Let_def)

theorem handler_guards_witness:
  "handler upstream502 (Some (str ''KEY'')) [(str ''strategy'', str ''desktop'')] = ([], missingUrl)
   \<and> handler upstream502 None [(str ''url'', str ''not a url'')] = ([], missingKey)
   \<and> status missingKey = 500"
proof -
  have "map_of [(str ''strategy'', str ''desktop'')] (str ''url'') = None
        \<or> map_of [(str ''strategy'', str ''desktop'')] (str ''url'') = Some []"
    by simp
  from mp [OF handler_guards [of "[(str ''strategy'', str ''desktop'')]" upstream502
                "Some (str ''KEY'')", THEN conjunct1] this]
  have a: "handler upstream502 (Some (str ''KEY'')) [(str ''strategy'', str ''desktop'')]
             = ([], missingUrl)" .
  note g = handler_guards [of "[(str ''url'', str ''not a url'')]" upstream502 None
      "str ''not a url''"]
  have "map_of [(str ''url'', str ''not a url'')] (str ''url'') = Some (str ''not a url'')
        \<and> str ''not a url'' \<noteq> []
        \<and> ((None :: jsstring option) = None \<or> (None :: jsstring option) = Some [])"
    by simp
  from mp [OF g [THEN conjunct2, THEN conjunct2, THEN conjunct2, THEN conjunct1] this]
  have b: "handler upstream502 None [(str ''url'', str ''not a url'')] = ([], missingKey)" .
  note c = g [THEN conjunct2, THEN conjunct2, THEN conjunct2, THEN conjunct2, THEN conjunct1]
  from a b c show ?thesis by (intro conjI)
qed

text \<open>
  The claim as it was stated promises the status 500 whenever the parameter is present
  and the key is not set, whatever the value. The request \<open>?url=\<close> has the parameter,
  with the empty value; with no key set it is answered with the status 400.
\<close>

theorem handler_guards_counterexample:
  "map_of [(str ''url'', [])] (str ''url'') = Some []
   \<and> handler upstream502 None [(str ''url'', [])] = ([], missingUrl)
   \<and> status (snd (handler upstream502 None [(str ''url'', [])])) = 400"
  by (simp add: handler_def missingUrl_def)

lemma handler_forward:
  assumes "map_of searchParams (str ''url'') = Some target" and "target \<noteq> []"
    and "apiKey \<noteq> []"
  shows "handler rt (Some apiKey) searchParams =
     (case rt_fetch rt (endpointOf rt target apiKey) of
        Rejected message \<Rightarrow> ([endpointOf rt target apiKey], caught message)
      | Responded psiRes \<Rightarrow>
          (case res_json psiRes of
             Inl message \<Rightarrow> ([endpointOf rt target apiKey], caught message)
           | Inr data \<Rightarrow>
               if \<not> res_ok psiRes then
                 (case new_Response rt
                         (JObj [(str ''ok'', JBool False),
                                (str ''error'', JStr (str ''PSI request failed'')),
                                (str ''details'', data)])
                         (res_status psiRes) jsonHeaders of
                    Inl message \<Rightarrow> ([endpointOf rt target apiKey], caught message)
                  | Inr r \<Rightarrow> ([endpointOf rt target apiKey], r))
               else
                 ([endpointOf rt target apiKey],
                  \<lparr>status = 200,
                   headers = jsonHeaders @ [(str ''Cache-Control'', str ''public, max-age=300'')],
                   body = data\<rparr>)))"
  using assms
  by (simp add: handler_def endpointOf_def Let_def split: fetched.splits sum.splits)

text \<open>
  C4, amended. With a target and a key the handler fetches one address and relays
  what comes back. When the fetch fails, the reply has the status 500 and the body
  \<open>{ ok: false, error: message }\<close>. The body of the answer is read as JSON before its
  status is looked at, so an answer whose body is not JSON, whatever its status, gets
  the same reply with the message of that error. An answer with a JSON body and a
  status from 300 to 599 other than 304 is relayed with that status and the body
  \<open>{ ok: false, error: "PSI request failed", details: body }\<close>; for a status outside 200
  to 599, or 304, the constructor of the reply throws and the reply is again the one
  of status 500. A success with a JSON body is relayed with the status 200, that
  body, and the header \<open>Cache-Control: public, max-age=300\<close>.
\<close>

theorem handler_relay:
  assumes "map_of searchParams (str ''url'') = Some target" and "target \<noteq> []"
    and "apiKey \<noteq> []"
  shows
  "(rt_fetch rt (endpointOf rt target apiKey) = Rejected message \<longrightarrow>
      handler rt (Some apiKey) searchParams = ([endpointOf rt target apiKey], caught message))
   \<and> (rt_fetch rt (endpointOf rt target apiKey) = Responded psiRes
        \<and> res_json psiRes = Inl message \<longrightarrow>
      handler rt (Some apiKey) searchParams = ([endpointOf rt target apiKey], caught message))
   \<and> status (caught message) = 500
   \<and> body (caught message) = JObj [(str ''ok'', JBool False), (str ''error'', JStr message)]
   \<and> (rt_fetch rt (endpointOf rt target apiKey) = Responded psiRes
        \<and> res_json psiRes = Inr data
        \<and> 300 \<le> res_status psiRes \<and> res_status psiRes \<le> 599 \<and> res_status psiRes \<noteq> 304 \<longrightarrow>
      handler rt (Some apiKey) searchParams =
        ([endpointOf rt target apiKey],
         \<lparr>status = res_status psiRes, headers = jsonHeaders,
          body = JObj [(str ''ok'', JBool False),
                       (str ''error'', JStr (str ''PSI request failed'')),
                       (str ''details'', data)]\<rparr>))
   \<and> (rt_fetch rt (endpointOf rt target apiKey) = Responded psiRes
        \<and> res_json psiRes = Inr data
        \<and> (res_status psiRes < 200 \<or> 599 < res_status psiRes) \<longrightarrow>
      handler rt (Some apiKey) searchParams =
        ([endpointOf rt target apiKey], caught (statusRangeMessage rt)))
   \<and> (rt_fetch rt (endpointOf rt target apiKey) = Responded psiRes
        \<and> res_json psiRes = Inr data \<and> res_status psiRes = 304 \<longrightarrow>
      handler rt (Some apiKey) searchParams =
        ([endpointOf rt target apiKey], caught (nullBodyMessage rt)))
   \<and> (rt_fetch rt (endpointOf rt target apiKey) = Responded psiRes
        \<and> res_json psiRes = Inr data
        \<and> 200 \<le> res_status psiRes \<and> res_status psiRes \<le> 299 \<longrightarrow>
      handler rt (Some apiKey) searchParams =
        ([endpointOf rt target apiKey],
         \<lparr>status = 200,
          headers = [(str ''Content-Type'', str ''application/json''),
                     (str ''Cache-Control'', str ''public, max-age=300'')],
          body = data\<rparr>))"
proof -
  note fwd = handler_forward [OF assms, of rt]
  show ?thesis
    by (intro conjI impI)
       (auto simp add: fwd caught_def res_ok_def new_Response_def jsonHeaders_def)
qed

theorem handler_relay_witness:
  "handler upstream429 (Some (str ''KEY'')) [(str ''url'', str ''https://example.com/'')] =
     ([endpointOf upstream429 (str ''https://example.com/'') (str ''KEY'')],
      \<lparr>status = 429, headers = jsonHeaders,
       body = JObj [(str ''ok'', JBool False),
                    (str ''error'', JStr (str ''PSI request failed'')),
                    (str ''details'', JArr [JNum (Finite 429)])]\<rparr>)
   \<and> handler upstream502 (Some (str ''KEY'')) [(str ''url'', str ''https://example.com/'')] =
     ([endpointOf upstream502 (str ''https://example.com/'') (str ''KEY'')],
      caught (str ''Unexpected token < in JSON at position 0''))"
proof -
  let ?q = "[(str ''url'', str ''https://example.com/'')]"
  have q: "map_of ?q (str ''url'') = Some (str ''https://example.com/'')"
    "str ''https://example.com/'' \<noteq> []" "str ''KEY'' \<noteq> []"
    by simp_all
  note json = handler_relay [OF q, of upstream429 _ quotaExceeded
      "JArr [JNum (Finite 429)]",
      THEN conjunct2, THEN conjunct2, THEN conjunct2, THEN conjunct2, THEN conjunct1]
  have "rt_fetch upstream429 (endpointOf upstream429 (str ''https://example.com/'') (str ''KEY''))
          = Responded quotaExceeded
        \<and> res_json quotaExceeded = Inr (JArr [JNum (Finite 429)])
        \<and> 300 \<le> res_status quotaExceeded \<and> res_status quotaExceeded \<le> 599
        \<and> res_status quotaExceeded \<noteq> 304"
    by (simp add: upstream429_def quotaExceeded_def)
  from mp [OF json this]
  have a: "handler upstream429 (Some (str ''KEY'')) ?q =
     ([endpointOf upstream429 (str ''https://example.com/'') (str ''KEY'')],
      \<lparr>status = 429, headers = jsonHeaders,
       body = JObj [(str ''ok'', JBool False),
                    (str ''error'', JStr (str ''PSI request failed'')),
                    (str ''details'', JArr [JNum (Finite 429)])]\<rparr>)"
    by (simp add: quotaExceeded_def)
  note html = handler_relay [OF q, of upstream502
      "str ''Unexpected token < in JSON at position 0''" badGateway,
      THEN conjunct2, THEN conjunct1]
  have "rt_fetch upstream502 (endpointOf upstream502 (str ''https://example.com/'') (str ''KEY''))
          = Responded badGateway
        \<and> res_json badGateway = Inl (str ''Unexpected token < in JSON at position 0'')"
    by (simp add: upstream502_def badGateway_def)
  from mp [OF html this]
  have b: "handler upstream502 (Some (str ''KEY'')) ?q =
     ([endpointOf upstream502 (str ''https://example.com/'') (str ''KEY'')],
      caught (str ''Unexpected token < in JSON at position 0''))" .
  from a b show ?thesis ..
qed

text \<open>
  The claim as it was stated lets every answer that is not a success be relayed under
  its own status. Here the upstream answers 502 with an HTML page: reading the body
  fails, and the reply has the status 500.
\<close>

theorem handler_relay_counterexample:
  "rt_fetch upstream502 (endpointOf upstream502 (str ''https://example.com/'') (str ''KEY''))
     = Responded badGateway
   \<and> res_status badGateway = 502
   \<and> \<not> res_ok badGateway
   \<and> fst (handler upstream502 (Some (str ''KEY'')) [(str ''url'', str ''https://example.com/'')])
       = [endpointOf upstream502 (str ''https://example.com/'') (str ''KEY'')]
   \<and> status (snd (handler upstream502 (Some (str ''KEY'')) [(str ''url'', str ''https://example.com/'')]))
       = 500"
  by (simp add: handler_def endpointOf_def upstream502_def badGateway_def res_ok_def caught_def
        Let_def)

end
